theory Spec2Isabelle
  imports Complex_Main
begin

section \<open>Skip-gram with negative sampling: the notebook PytorchWord2Vec\<close>

text \<open>
  The notebook is one script: hyperparameters, \<open>text_preprocess\<close>, the class
  \<open>WordEmbeddingDataset\<close>, the class \<open>EmbeddingModel\<close>, the functions \<open>evaluate\<close> and
  \<open>find_nearest\<close>, and the training loop. Each is embedded below in the order of the
  notebook. Python exceptions are values of the type \<open>error\<close>; a function that can raise
  returns \<open>error + 'a\<close> with \<open>Inl\<close> for the exception.

  Numbers: Python integers are \<open>int\<close> or \<open>nat\<close>. The float32 entries of tensors and
  arrays are written as \<open>real\<close>; nothing proved below depends on rounding, and no
  statement about rounding is made.
\<close>

datatype error =
    NameError string
  | IndexError
  | KeyError string
  | TypeError
  | RuntimeError
  | AttributeError string string
  | FileNotFoundError string

subsection \<open>Hyperparameters (cell 2)\<close>

definition K :: nat where
  "K = 100"

definition C :: nat where
  "C = 3"

definition EPOCHS :: nat where
  "EPOCHS = 2"

definition MAX_VOCAB_SIZE :: nat where
  "MAX_VOCAB_SIZE = 30000"

subsection \<open>Python built-ins used by the notebook\<close>

text \<open>\<open>range(a, b)\<close> on integers.\<close>

definition py_range :: "int \<Rightarrow> int \<Rightarrow> int list" where
  "py_range a b = [a..b - 1]"

text \<open>
  A \<open>dict\<close> keeps its keys in insertion order, so it is an association list with
  distinct keys. \<open>d[k] = v\<close> overwrites the value of a key that is present and leaves
  the key where it is; a new key goes to the end.
\<close>

type_synonym ('k, 'v) dict = "('k \<times> 'v) list"

fun dict_set :: "('k, 'v) dict \<Rightarrow> 'k \<Rightarrow> 'v \<Rightarrow> ('k, 'v) dict" where
  "dict_set [] k v = [(k, v)]"
| "dict_set ((k', v') # d) k v =
     (if k' = k then (k', v) # d else (k', v') # dict_set d k v)"

definition dict_get :: "('k, 'v) dict \<Rightarrow> 'k \<Rightarrow> 'v \<Rightarrow> 'v" where
  "dict_get d k dflt = (case map_of d k of None \<Rightarrow> dflt | Some v \<Rightarrow> v)"

definition dict_of :: "('k \<times> 'v) list \<Rightarrow> ('k, 'v) dict" where
  "dict_of kvs = foldl (\<lambda>d (k, v). dict_set d k v) [] kvs"

definition dict_keys :: "('k, 'v) dict \<Rightarrow> 'k list" where
  "dict_keys d = map fst d"

definition dict_values :: "('k, 'v) dict \<Rightarrow> 'v list" where
  "dict_values d = map snd d"

text \<open>
  \<open>collections.Counter(text)\<close> runs \<open>self[elem] = self.get(elem, 0) + 1\<close> over the
  tokens, so its keys are in the order of first occurrence. \<open>most_common(n)\<close> is the
  first \<open>n\<close> entries of a stable sort by decreasing count.
\<close>

definition Counter :: "string list \<Rightarrow> (string, int) dict" where
  "Counter text = foldl (\<lambda>d w. dict_set d w (dict_get d w 0 + 1)) [] text"

definition most_common :: "nat \<Rightarrow> (string, int) dict \<Rightarrow> (string \<times> int) list" where
  "most_common n cnt = take n (sort_key (\<lambda>(w, c). - c) cnt)"

text \<open>
  \<open>str.lower\<close> and \<open>str.split()\<close> on a text whose characters are the code points below
  256. The capitals are lowered: \<open>A\<close> to \<open>Z\<close>, and the letters from 192 to 222 other
  than the multiplication sign 215. The text is cut at runs of white space: space, tab,
  line feed, vertical tab, form feed, carriage return, the separators 28 to 31, the next
  line character 133 and the no-break space 160.
\<close>

definition lower_char :: "char \<Rightarrow> char" where
  "lower_char c =
     (let n = (of_char c :: nat)
      in if (65 \<le> n \<and> n \<le> 90) \<or> (192 \<le> n \<and> n \<le> 222 \<and> n \<noteq> 215) then char_of (n + 32)
         else c)"

definition lower :: "string \<Rightarrow> string" where
  "lower s = map lower_char s"

definition is_space :: "char \<Rightarrow> bool" where
  "is_space c =
     (let n = (of_char c :: nat)
      in n = 32 \<or> (9 \<le> n \<and> n \<le> 13) \<or> (28 \<le> n \<and> n \<le> 31) \<or> n = 133 \<or> n = 160)"

fun split_from :: "string \<Rightarrow> string \<Rightarrow> string list" where
  "split_from cur [] = (if cur = [] then [] else [cur])"
| "split_from cur (c # cs) =
     (if is_space c then (if cur = [] then split_from [] cs else cur # split_from [] cs)
      else split_from (cur @ [c]) cs)"

subsection \<open>Tokenizer (cell 3) and vocabulary construction (cell 5)\<close>

definition word_tockenize :: "string \<Rightarrow> string list" where
  "word_tockenize text = split_from [] text"

text \<open>
  Lines 123 to 125 of \<open>text_preprocess\<close>: the \<open>MAX_VOCAB_SIZE - 1\<close> most common tokens
  with their counts, then the assignment \<open>vocab["<unk>"] = len(text) - sum of the counts\<close>.
\<close>

definition build_vocab :: "string list \<Rightarrow> (string, int) dict" where
  "build_vocab text =
     (let vocab = dict_of (most_common (MAX_VOCAB_SIZE - 1) (Counter text))
      in dict_set vocab ''<unk>'' (int (length text) - sum_list (dict_values vocab)))"

definition enumerate :: "'a list \<Rightarrow> (nat \<times> 'a) list" where
  "enumerate xs = zip [0..<length xs] xs"

text \<open>
  The three lines that compute \<open>word_freqs\<close> from the array of counts: divide by the
  sum, raise to the power 3/4, divide by the sum again. The counts are not negative. When
  they sum to zero every quotient is 0/0, which \<open>numpy\<close> evaluates to \<open>nan\<close> with a warning
  and no exception; an array whose entries are all \<open>nan\<close> is written \<open>None\<close>.
\<close>

definition smooth :: "real list \<Rightarrow> real list option" where
  "smooth word_counts =
     (if sum_list word_counts = 0 then None
      else
        (let word_freqs = map (\<lambda>c. c / sum_list word_counts) word_counts;
             word_freqs = map (\<lambda>f. f powr (3 / 4)) word_freqs
         in if sum_list word_freqs = 0 then None
            else Some (map (\<lambda>f. f / sum_list word_freqs) word_freqs)))"

record preprocessed =
  tokens :: "string list"
  idx2word :: "string list"
  word2idx :: "(string, nat) dict"
  word_freqs :: "real list option"
  word_counts :: "real list"
  vocab_size :: nat

definition text_preprocess_tokens :: "string list \<Rightarrow> preprocessed" where
  "text_preprocess_tokens txt =
     (let vocab = build_vocab txt;
          idx2word = dict_keys vocab;
          word2idx = dict_of (map (\<lambda>(i, word). (word, i)) (enumerate idx2word));
          word_counts = map real_of_int (dict_values vocab)
      in \<lparr> tokens = txt, idx2word = idx2word, word2idx = word2idx,
           word_freqs = smooth word_counts, word_counts = word_counts,
           vocab_size = length idx2word \<rparr>)"

text \<open>\<open>text_preprocess\<close> on the content of the file it reads.\<close>

definition text_preprocess :: "string \<Rightarrow> preprocessed" where
  "text_preprocess content = text_preprocess_tokens (word_tockenize (lower content))"

subsection \<open>The dataset (cell 9)\<close>

record dataset =
  text_encoded :: "int list"
  ds_word2idx :: "(string, nat) dict"
  ds_idx2word :: "string list"
  ds_word_freqs :: "real list option"
  ds_word_counts :: "real list"

text \<open>
  \<open>__init__\<close> reads the global \<open>VOCAB_SIZE\<close>, which cell 6 binds to the sixth component
  of the result of \<open>text_preprocess\<close>; it is the first argument here.
\<close>

definition WordEmbeddingDataset :: "nat \<Rightarrow> string list \<Rightarrow> (string, nat) dict \<Rightarrow> string list \<Rightarrow>
    real list option \<Rightarrow> real list \<Rightarrow> dataset" where
  "WordEmbeddingDataset VOCAB_SIZE txt w2i i2w freqs counts =
     \<lparr> text_encoded = map (\<lambda>t. dict_get (map (\<lambda>(w, i). (w, int i)) w2i) t (int VOCAB_SIZE - 1)) txt,
       ds_word2idx = w2i, ds_idx2word = i2w, ds_word_freqs = freqs, ds_word_counts = counts \<rparr>"

text \<open>Cell 6 and cell 11: the dataset the notebook builds from the content of a file.\<close>

definition notebook_dataset :: "string \<Rightarrow> dataset" where
  "notebook_dataset content =
     (let p = text_preprocess content
      in WordEmbeddingDataset (vocab_size p) (tokens p) (word2idx p) (idx2word p)
           (word_freqs p) (word_counts p))"

definition len :: "dataset \<Rightarrow> nat" where
  "len ds = length (text_encoded ds)"

text \<open>
  Indexing a one-dimensional tensor by an integer: an index from \<open>-n\<close> to \<open>n - 1\<close> is
  accepted, a negative one counts from the end, any other raises \<open>IndexError\<close>.
  Indexing by a list of integers does so for each of them.
\<close>

definition tensor_at :: "'a list \<Rightarrow> int \<Rightarrow> error + 'a" where
  "tensor_at xs i =
     (if 0 \<le> i \<and> i < int (length xs) then Inr (xs ! nat i)
      else if - int (length xs) \<le> i \<and> i < 0 then Inr (xs ! nat (int (length xs) + i))
      else Inl IndexError)"

fun tensor_at_list :: "'a list \<Rightarrow> int list \<Rightarrow> error + 'a list" where
  "tensor_at_list xs [] = Inr []"
| "tensor_at_list xs (i # is) =
     (case tensor_at xs i of
        Inl e \<Rightarrow> Inl e
      | Inr x \<Rightarrow> (case tensor_at_list xs is of Inl e \<Rightarrow> Inl e | Inr ys \<Rightarrow> Inr (x # ys)))"

text \<open>
  \<open>torch.multinomial(weights, n, replacement)\<close>, as cell 8 of the notebook describes it:
  \<open>n\<close> indices into \<open>weights\<close>, each drawn with probability proportional to its weight.
  The random generator is the parameter \<open>draw\<close>: \<open>draw w j\<close> is the index it selects on
  its \<open>j\<close>-th draw from the weights \<open>w\<close>. With replacement every draw is made from the
  weights as given; without, a drawn index has its weight set to zero before the next
  draw, and more draws than there are weights are refused. A request for no draw at all
  is refused, and so are weights that are empty, that have a negative entry or one that
  is not a number, or that sum to zero.
\<close>

definition valid_weights :: "real list \<Rightarrow> bool" where
  "valid_weights w = (w \<noteq> [] \<and> list_all (\<lambda>x. 0 \<le> x) w \<and> 0 < sum_list w)"

fun draw_without_replacement :: "(real list \<Rightarrow> nat \<Rightarrow> nat) \<Rightarrow> real list \<Rightarrow> nat \<Rightarrow> nat \<Rightarrow> nat list" where
  "draw_without_replacement draw w j 0 = []"
| "draw_without_replacement draw w j (Suc n) =
     (let i = draw w j in i # draw_without_replacement draw (w[i := 0]) (Suc j) n)"

definition multinomial :: "(real list \<Rightarrow> nat \<Rightarrow> nat) \<Rightarrow> real list option \<Rightarrow> nat \<Rightarrow> bool \<Rightarrow>
    error + nat list" where
  "multinomial draw weights n replacement =
     (case weights of
        None \<Rightarrow> Inl RuntimeError
      | Some w \<Rightarrow>
          (if n = 0 \<or> \<not> valid_weights w then Inl RuntimeError
           else if replacement then Inr (map (draw w) [0..<n])
           else if length w < n then Inl RuntimeError
           else Inr (draw_without_replacement draw w 0 n)))"

text \<open>Line 238 and line 240 of \<open>__getitem__\<close>: the positions of the context words.\<close>

definition pos_indices :: "nat \<Rightarrow> int \<Rightarrow> int list" where
  "pos_indices n idx =
     map (\<lambda>i. i mod int n) (py_range (idx - int C) idx @ py_range (idx + 1) (idx + int C + 1))"

definition getitem :: "(real list \<Rightarrow> nat \<Rightarrow> nat) \<Rightarrow> dataset \<Rightarrow> int \<Rightarrow>
    error + (int \<times> int list \<times> nat list)" where
  "getitem draw ds idx =
     (case tensor_at (text_encoded ds) idx of
        Inl e \<Rightarrow> Inl e
      | Inr center_word \<Rightarrow>
          (case tensor_at_list (text_encoded ds) (pos_indices (length (text_encoded ds)) idx) of
             Inl e \<Rightarrow> Inl e
           | Inr pos_words \<Rightarrow>
               (case multinomial draw (ds_word_freqs ds) (K * length pos_words) True of
                  Inl e \<Rightarrow> Inl e
                | Inr neg_words \<Rightarrow> Inr (center_word, pos_words, neg_words))))"

text \<open>
  A generator for examples: it goes round the indices of positive weight in their order.
\<close>

definition round_robin :: "real list \<Rightarrow> nat \<Rightarrow> nat" where
  "round_robin w j =
     (let support = filter (\<lambda>i. 0 < w ! i) [0..<length w] in support ! (j mod length support))"

subsection \<open>Tensors\<close>

text \<open>
  A tensor is its shape and its entries in row-major order. The operations are those
  \<open>forward\<close> calls, each with the shape check the library makes.
\<close>

record 'a tensor =
  shape :: "nat list"
  entries :: "'a list"

definition and_then :: "error + 'a \<Rightarrow> ('a \<Rightarrow> error + 'b) \<Rightarrow> error + 'b" where
  "and_then r f = (case r of Inl e \<Rightarrow> Inl e | Inr x \<Rightarrow> f x)"

text \<open>\<open>t.size(0)\<close>: the extent of the first dimension; a tensor of no dimension has none.\<close>

definition size0 :: "'a tensor \<Rightarrow> error + nat" where
  "size0 t = (case shape t of [] \<Rightarrow> Inl IndexError | d # ds \<Rightarrow> Inr d)"

text \<open>
  \<open>nn.Embedding\<close> applied to a tensor of indices: every index is replaced by its row of
  the weight matrix, which adds a last dimension of extent \<open>embed_size\<close>. An index outside
  the rows of the matrix raises \<open>IndexError\<close>.
\<close>

definition embedding :: "nat \<Rightarrow> real list list \<Rightarrow> int tensor \<Rightarrow> error + real tensor" where
  "embedding embed_size weight labels =
     (if list_all (\<lambda>i. 0 \<le> i \<and> i < int (length weight)) (entries labels)
      then Inr \<lparr> shape = shape labels @ [embed_size],
                 entries = concat (map (\<lambda>i. weight ! nat i) (entries labels)) \<rparr>
      else Inl IndexError)"

definition unsqueeze :: "nat \<Rightarrow> 'a tensor \<Rightarrow> error + 'a tensor" where
  "unsqueeze d t =
     (if d \<le> length (shape t)
      then Inr (t\<lparr> shape := take d (shape t) @ [1] @ drop d (shape t) \<rparr>)
      else Inl IndexError)"

definition negate :: "real tensor \<Rightarrow> real tensor" where
  "negate t = t\<lparr> entries := map uminus (entries t) \<rparr>"

text \<open>
  \<open>torch.bmm\<close>: both arguments have three dimensions, \<open>[b, n, m]\<close> and \<open>[b, m, p]\<close>;
  the result has shape \<open>[b, n, p]\<close>.
\<close>

definition bmm :: "real tensor \<Rightarrow> real tensor \<Rightarrow> error + real tensor" where
  "bmm a b =
     (if length (shape a) = 3 \<and> length (shape b) = 3 \<and> shape a ! 0 = shape b ! 0
         \<and> shape a ! 2 = shape b ! 1
      then
        (let bs = shape a ! 0; n = shape a ! 1; m = shape a ! 2; p = shape b ! 2
         in Inr \<lparr> shape = [bs, n, p],
                  entries = concat (map (\<lambda>i. concat (map (\<lambda>j. map (\<lambda>k.
                      sum_list (map (\<lambda>l. entries a ! (i * n * m + j * m + l)
                                        * entries b ! (i * m * p + l * p + k)) [0..<m]))
                      [0..<p]) [0..<n])) [0..<bs]) \<rparr>)
      else Inl RuntimeError)"

text \<open>\<open>squeeze()\<close> with no argument removes every dimension of extent one.\<close>

definition squeeze :: "'a tensor \<Rightarrow> 'a tensor" where
  "squeeze t = t\<lparr> shape := filter (\<lambda>d. d \<noteq> 1) (shape t) \<rparr>"

text \<open>\<open>F.logsigmoid\<close> takes the logarithm of the sigmoid of every entry.\<close>

definition log_sigmoid :: "real \<Rightarrow> real" where
  "log_sigmoid x = ln (1 / (1 + exp (- x)))"

definition logsigmoid :: "real tensor \<Rightarrow> real tensor" where
  "logsigmoid t = t\<lparr> entries := map log_sigmoid (entries t) \<rparr>"

text \<open>
  \<open>t.sum(1)\<close> sums over the second dimension and removes it; a tensor with fewer than two
  dimensions has no dimension 1, and the call raises \<open>IndexError\<close>.
\<close>

definition sum1 :: "real tensor \<Rightarrow> error + real tensor" where
  "sum1 t =
     (case shape t of
        d0 # d1 # rest \<Rightarrow>
          (let inner = prod_list rest
           in Inr \<lparr> shape = d0 # rest,
                    entries = concat (map (\<lambda>i. map (\<lambda>r.
                        sum_list (map (\<lambda>j. entries t ! (i * d1 * inner + j * inner + r)) [0..<d1]))
                        [0..<inner]) [0..<d0]) \<rparr>)
      | _ \<Rightarrow> Inl IndexError)"

text \<open>
  Addition of two tensors of one shape. (Where \<open>forward\<close> adds, both tensors have the
  shape \<open>[batch_size]\<close>; other shapes, which the library would broadcast, are refused.)
\<close>

definition add :: "real tensor \<Rightarrow> real tensor \<Rightarrow> error + real tensor" where
  "add s t =
     (if shape s = shape t
      then Inr \<lparr> shape = shape s, entries = map2 (+) (entries s) (entries t) \<rparr>
      else Inl RuntimeError)"

subsection \<open>The model (cell 16)\<close>

text \<open>
  The two embedding tables are \<open>vocab_size\<close> rows of \<open>embed_size\<close> entries each.
  \<open>__init__\<close> fills them with random values; here they are the fields of the record.
\<close>

record embedding_model =
  self_vocab_size :: nat
  self_embed_size :: nat
  in_embed :: "real list list"
  out_embed :: "real list list"

definition forward :: "embedding_model \<Rightarrow> int tensor \<Rightarrow> int tensor \<Rightarrow> int tensor \<Rightarrow>
    error + real tensor" where
  "forward self input_labels pos_labels neg_labels =
     and_then (size0 input_labels) (\<lambda>batch_size.
     and_then (embedding (self_embed_size self) (in_embed self) input_labels) (\<lambda>input_embedding.
     and_then (embedding (self_embed_size self) (out_embed self) pos_labels) (\<lambda>pos_embedding.
     and_then (embedding (self_embed_size self) (out_embed self) neg_labels) (\<lambda>neg_embedding.
     and_then (unsqueeze 2 input_embedding) (\<lambda>column.
     and_then (bmm pos_embedding column) (\<lambda>pos_product.
     and_then (unsqueeze 2 input_embedding) (\<lambda>column'.
     and_then (bmm neg_embedding (negate column')) (\<lambda>neg_product.
     and_then (sum1 (logsigmoid (squeeze pos_product))) (\<lambda>log_pos.
     and_then (sum1 (logsigmoid (squeeze neg_product))) (\<lambda>log_neg.
     and_then (add log_pos log_neg) (\<lambda>loss.
     Inr (negate loss))))))))))))"

text \<open>
  Line 476 of the training loop, \<open>model(input_labels, pos_labels, neg_labels).mean()\<close>,
  for a model that is not wrapped.
\<close>

definition mean :: "real tensor \<Rightarrow> real" where
  "mean t = sum_list (entries t) / real (length (entries t))"

definition batch_loss :: "embedding_model \<Rightarrow> int tensor \<times> int tensor \<times> int tensor \<Rightarrow> error + real" where
  "batch_loss self batch =
     (case batch of (input_labels, pos_labels, neg_labels) \<Rightarrow>
        and_then (forward self input_labels pos_labels neg_labels) (\<lambda>loss. Inr (mean loss)))"

definition input_embeddings :: "embedding_model \<Rightarrow> real list list" where
  "input_embeddings self = in_embed self"

text \<open>
  The data loader stacks the examples of a batch: the center words into a tensor of shape
  \<open>[B]\<close>, the context words into one of shape \<open>[B, 2 * C]\<close>, the negatives into one of
  shape \<open>[B, K * 2 * C]\<close>. Its last batch holds the examples that are left, so it has
  one example when the number of tokens is one more than a multiple of the batch size.
\<close>

definition collate :: "(int \<times> int list \<times> nat list) list \<Rightarrow> int tensor \<times> int tensor \<times> int tensor" where
  "collate examples =
     (\<lparr> shape = [length examples], entries = map fst examples \<rparr>,
      \<lparr> shape = [length examples, 2 * C],
        entries = concat (map (\<lambda>(center_word, pos_words, neg_words). pos_words) examples) \<rparr>,
      \<lparr> shape = [length examples, K * 2 * C],
        entries = concat (map (\<lambda>(center_word, pos_words, neg_words). map int neg_words)
                    examples) \<rparr>)"

subsection \<open>Wrapping the model (cell 17)\<close>

text \<open>
  \<open>model.cuda()\<close> moves the parameters and returns the same model. With more than one
  device the model becomes the argument of \<open>nn.DataParallel\<close>. Looking up
  \<open>input_embeddings\<close> on the wrapper goes through \<open>nn.Module.__getattr__\<close>, which knows
  parameters, buffers and submodules only and raises \<open>AttributeError\<close> for this name, as
  the traceback kept in the notebook shows.
\<close>

datatype module = EmbeddingModel embedding_model | DataParallel embedding_model

definition build_model :: "bool \<Rightarrow> nat \<Rightarrow> embedding_model \<Rightarrow> module" where
  "build_model USE_CUDA NUM_CUDA m =
     (if 1 < NUM_CUDA then DataParallel m else EmbeddingModel m)"

fun call_input_embeddings :: "module \<Rightarrow> error + real list list" where
  "call_input_embeddings (EmbeddingModel self) = Inr (input_embeddings self)"
| "call_input_embeddings (DataParallel self) =
     Inl (AttributeError ''DataParallel'' ''input_embeddings'')"

fun parameters :: "module \<Rightarrow> embedding_model" where
  "parameters (EmbeddingModel self) = self"
| "parameters (DataParallel self) = self"

fun with_parameters :: "module \<Rightarrow> embedding_model \<Rightarrow> module" where
  "with_parameters (EmbeddingModel _) self = EmbeddingModel self"
| "with_parameters (DataParallel _) self = DataParallel self"

subsection \<open>Global names\<close>

text \<open>
  \<open>evaluate\<close> and \<open>find_nearest\<close> read names that are not their parameters or local
  variables, so Python looks them up among the globals of the notebook when the line that
  reads them runs; an unbound name raises \<open>NameError\<close>. The globals are a map from
  names to values. Of the values only the kinds these two functions use are told
  apart.
\<close>

datatype pyval =
    Dict "(string, nat) dict"
  | Words "string list"
  | Weights "real list list"
  | Other

type_synonym globals = "string \<Rightarrow> pyval option"

definition global :: "globals \<Rightarrow> string \<Rightarrow> error + pyval" where
  "global g name = (case g name of None \<Rightarrow> Inl (NameError name) | Some v \<Rightarrow> Inr v)"

text \<open>
  The names the cells of the notebook bind at top level, in the order of the cells: the
  imports, the hyperparameters, the functions and classes, the results of the calls, and
  the names the training loop assigns (its loop variables and \<open>with\<close> targets included).
\<close>

definition names_before_training :: "string list" where
  "names_before_training =
     [''torch'', ''nn'', ''F'', ''tud'', ''Parameter'', ''Counter'', ''np'', ''random'', ''math'',
      ''pd'', ''scipy'', ''sklearn'', ''cosine_similarity'',
      ''USE_CUDA'', ''NUM_CUDA'', ''SEED'', ''K'', ''C'', ''EPOCHS'', ''MAX_VOCAB_SIZE'',
      ''BATCH_SIZE'', ''LEARNING_RATE'', ''EMBEDDING_SIZE'', ''LOG_FILE'', ''TRAIN_FILE'',
      ''EVAL_FILE'', ''TEST_FILE'',
      ''word_tockenize'', ''text_preprocess'',
      ''text'', ''idx2word'', ''word2idx'', ''word_freqs'', ''word_counts'', ''VOCAB_SIZE'',
      ''WordEmbeddingDataset'', ''dataset'', ''dataloader'', ''iterloader'',
      ''EmbeddingModel'', ''model'', ''evaluate'', ''find_nearest'']"

definition names_of_training :: "string list" where
  "names_of_training =
     [''optimizer'', ''e'', ''i'', ''input_labels'', ''pos_labels'', ''neg_labels'', ''loss'',
      ''fout'', ''embedding_weights'', ''sim_simlex'', ''sim_men'', ''sim_353'']"

definition notebook_names :: "string list" where
  "notebook_names = names_before_training @ names_of_training"

text \<open>
  A session that has run cells of the notebook, and no other code, binds names of the
  notebook and the names the interpreter adds by itself: \<open>In\<close>, \<open>Out\<close>, \<open>get_ipython\<close>,
  \<open>exit\<close>, \<open>quit\<close>, and names that begin with an underscore.
\<close>

definition session_name :: "string \<Rightarrow> bool" where
  "session_name name =
     (name \<in> set notebook_names
      \<or> name \<in> set [''In'', ''Out'', ''get_ipython'', ''exit'', ''quit'']
      \<or> take 1 name = ''_'')"

definition notebook_session :: "globals \<Rightarrow> bool" where
  "notebook_session g = (dom g \<subseteq> Collect session_name)"

subsection \<open>Evaluation utilities (cell 18)\<close>

text \<open>
  \<open>sklearn\<close>'s \<open>cosine_similarity\<close> of two rows: both are scaled to length one (a row of
  length zero is left as it is) and multiplied. \<open>scipy\<close>'s cosine distance is one minus the
  quotient of the product by the two lengths; with a vector of length zero the quotient is
  not a number, written \<open>None\<close>.
\<close>

definition dot :: "real list \<Rightarrow> real list \<Rightarrow> real" where
  "dot u v = sum_list (map2 (*) u v)"

definition l2_norm :: "real list \<Rightarrow> real" where
  "l2_norm u = sqrt (dot u u)"

definition normalize :: "real list \<Rightarrow> real list" where
  "normalize u = (if l2_norm u = 0 then u else map (\<lambda>x. x / l2_norm u) u)"

definition cosine_similarity :: "real list \<Rightarrow> real list \<Rightarrow> real" where
  "cosine_similarity u v = dot (normalize u) (normalize v)"

definition cosine :: "real list \<Rightarrow> real list \<Rightarrow> real option" where
  "cosine u v =
     (if l2_norm u * l2_norm v = 0 then None
      else Some (1 - dot u v / (l2_norm u * l2_norm v)))"

text \<open>
  \<open>cos_dis.argsort()\<close> returns the indices in increasing order of their values, those of
  values that are not a number last. The order it gives to equal values is not fixed by
  \<open>numpy\<close>, so the function is a parameter of \<open>find_nearest\<close>. One such function, for
  examples, is \<open>stable_argsort\<close>, where equal values keep the order of their indices.
\<close>

definition stable_argsort :: "real option list \<Rightarrow> nat list" where
  "stable_argsort ds =
     sort_key (\<lambda>i. the (ds ! i)) (filter (\<lambda>i. ds ! i \<noteq> None) [0..<length ds])
     @ filter (\<lambda>i. ds ! i = None) [0..<length ds]"

definition endswith :: "string \<Rightarrow> string \<Rightarrow> bool" where
  "endswith s suffix =
     (length suffix \<le> length s \<and> drop (length s - length suffix) s = suffix)"

text \<open>
  A benchmark file as \<open>pd.read_csv\<close> returns it: its rows after the header, each two
  words and a score. Reading is the parameter \<open>read_csv\<close>, from the file name and the
  separator to the rows or to the exception raised.
\<close>

type_synonym row = "string \<times> string \<times> real"

text \<open>One pass of the loop of \<open>evaluate\<close> over the rows that are left.\<close>

fun evaluate_rows :: "globals \<Rightarrow> real list list \<Rightarrow> row list \<Rightarrow> real list \<Rightarrow> real list \<Rightarrow>
    error + (real list \<times> real list)" where
  "evaluate_rows g embedding_weights [] human_similarity model_similarity =
     Inr (human_similarity, model_similarity)"
| "evaluate_rows g embedding_weights ((word1, word2, score) # rows)
       human_similarity model_similarity =
     (case global g ''word_to_idx'' of
        Inl e \<Rightarrow> Inl e
      | Inr (Dict word_to_idx) \<Rightarrow>
          (if map_of word_to_idx word1 = None \<or> map_of word_to_idx word2 = None
           then evaluate_rows g embedding_weights rows human_similarity model_similarity
           else
             (let word1_idx = the (map_of word_to_idx word1);
                  word2_idx = the (map_of word_to_idx word2)
              in if length embedding_weights \<le> word1_idx \<or> length embedding_weights \<le> word2_idx
                 then Inl IndexError
                 else evaluate_rows g embedding_weights rows
                        (human_similarity @ [score])
                        (model_similarity @
                           [cosine_similarity (embedding_weights ! word1_idx)
                              (embedding_weights ! word2_idx)])))
      | Inr _ \<Rightarrow> Inl TypeError)"

definition evaluate :: "(string \<Rightarrow> string \<Rightarrow> error + row list) \<Rightarrow> (real list \<Rightarrow> real list \<Rightarrow> 'r) \<Rightarrow>
    globals \<Rightarrow> string \<Rightarrow> real list list \<Rightarrow> error + 'r" where
  "evaluate read_csv spearmanr g filename embedding_weights =
     and_then (if endswith filename ''.csv'' then read_csv filename '',''
               else read_csv filename [CHR 0x09]) (\<lambda>data.
     and_then (evaluate_rows g embedding_weights data [] []) (\<lambda>(human_similarity, model_similarity).
     Inr (spearmanr human_similarity model_similarity)))"

fun words_at :: "string list \<Rightarrow> nat list \<Rightarrow> error + string list" where
  "words_at ws [] = Inr []"
| "words_at ws (i # is) =
     (if i < length ws then and_then (words_at ws is) (\<lambda>rest. Inr (ws ! i # rest))
      else Inl IndexError)"

definition find_nearest :: "(real option list \<Rightarrow> nat list) \<Rightarrow> globals \<Rightarrow> string \<Rightarrow>
    error + string list" where
  "find_nearest argsort g word =
     (case global g ''word_to_idx'' of
        Inl e \<Rightarrow> Inl e
      | Inr (Dict word_to_idx) \<Rightarrow>
          (case map_of word_to_idx word of
             None \<Rightarrow> Inl (KeyError word)
           | Some index \<Rightarrow>
               (case global g ''embedding_weights'' of
                  Inl e \<Rightarrow> Inl e
                | Inr (Weights embedding_weights) \<Rightarrow>
                    (if length embedding_weights \<le> index then Inl IndexError
                     else
                       (let embedding = embedding_weights ! index;
                            cos_dis = map (\<lambda>e. cosine e embedding) embedding_weights
                        in case global g ''idx_to_word'' of
                             Inl e \<Rightarrow> Inl e
                           | Inr (Words idx_to_word) \<Rightarrow>
                               words_at idx_to_word (take 10 (argsort cos_dis))
                           | Inr _ \<Rightarrow> Inl TypeError))
                | Inr _ \<Rightarrow> Inl TypeError))
      | Inr _ \<Rightarrow> Inl TypeError)"

subsection \<open>The training loop (cell 20)\<close>

text \<open>
  What the loop takes from outside the notebook is the record \<open>library\<close>: the batches
  the data loader yields in each epoch; \<open>step\<close>, which stands for the forward pass, the
  mean, \<open>backward\<close> and the optimizer step on one batch and returns the new parameters
  and the mean loss, or the exception raised; \<open>read_csv\<close>; \<open>spearmanr\<close>; and the
  \<open>argsort\<close> of \<open>numpy\<close>.
  The state is the model, the globals, the lines appended to the log file, and the
  array last written by \<open>np.save\<close>. An exception ends the loop: nothing catches it.
\<close>

record ('b, 'r) library =
  dataloader :: "nat \<Rightarrow> 'b list"
  step :: "module \<Rightarrow> 'b \<Rightarrow> error + (embedding_model \<times> real)"
  read_csv :: "string \<Rightarrow> string \<Rightarrow> error + row list"
  spearmanr :: "real list \<Rightarrow> real list \<Rightarrow> 'r"
  np_argsort :: "real option list \<Rightarrow> nat list"

datatype 'r log_line =
    LossLine nat nat real
  | EvalLine nat nat 'r 'r 'r "string list"

record 'r state =
  model :: module
  env :: globals
  log_file :: "'r log_line list"
  saved :: "real list list option"

fun bind_names :: "globals \<Rightarrow> string list \<Rightarrow> globals" where
  "bind_names g [] = g"
| "bind_names g (name # names) = bind_names (g(name \<mapsto> Other)) names"

text \<open>The body of \<open>if i % 2000 == 0\<close>.\<close>

definition periodic_evaluation :: "('b, 'r) library \<Rightarrow> nat \<Rightarrow> nat \<Rightarrow> 'r state \<Rightarrow> error + 'r state" where
  "periodic_evaluation lib e i s =
     and_then (call_input_embeddings (model s)) (\<lambda>embedding_weights.
     let g = (env s)(''embedding_weights'' \<mapsto> Weights embedding_weights) in
     and_then (evaluate (read_csv lib) (spearmanr lib) g ''simlex-999.txt'' embedding_weights)
       (\<lambda>sim_simlex.
     let g = g(''sim_simlex'' \<mapsto> Other) in
     and_then (evaluate (read_csv lib) (spearmanr lib) g ''men.txt'' embedding_weights)
       (\<lambda>sim_men.
     let g = g(''sim_men'' \<mapsto> Other) in
     and_then (evaluate (read_csv lib) (spearmanr lib) g ''wordsim353.csv'' embedding_weights)
       (\<lambda>sim_353.
     let g = g(''sim_353'' \<mapsto> Other, ''fout'' \<mapsto> Other) in
     and_then (find_nearest (np_argsort lib) g ''monster'') (\<lambda>printed.
     and_then (find_nearest (np_argsort lib) g ''monster'') (\<lambda>written.
     Inr (s\<lparr> env := g,
             log_file := log_file s @ [EvalLine e i sim_simlex sim_men sim_353 written] \<rparr>)))))))"

fun run_batches :: "('b, 'r) library \<Rightarrow> nat \<Rightarrow> nat \<Rightarrow> 'b list \<Rightarrow> 'r state \<Rightarrow> error + 'r state" where
  "run_batches lib e i [] s = Inr s"
| "run_batches lib e i (batch # rest) s =
     (case step lib (model s) batch of
        Inl err \<Rightarrow> Inl err
      | Inr (params, loss) \<Rightarrow>
          (let s = s\<lparr> model := with_parameters (model s) params,
                      env := bind_names (env s)
                        [''i'', ''input_labels'', ''pos_labels'', ''neg_labels'', ''loss''] \<rparr>;
               s = (if i mod 100 = 0
                    then s\<lparr> env := bind_names (env s) [''fout''],
                            log_file := log_file s @ [LossLine e i loss] \<rparr>
                    else s)
           in if i mod 2000 = 0
              then (case periodic_evaluation lib e i s of
                      Inl err \<Rightarrow> Inl err
                    | Inr s \<Rightarrow> run_batches lib e (Suc i) rest s)
              else run_batches lib e (Suc i) rest s))"

fun run_epochs :: "('b, 'r) library \<Rightarrow> nat list \<Rightarrow> 'r state \<Rightarrow> error + 'r state" where
  "run_epochs lib [] s = Inr s"
| "run_epochs lib (e # es) s =
     (case run_batches lib e 0 (dataloader lib e) (s\<lparr> env := bind_names (env s) [''e''] \<rparr>) of
        Inl err \<Rightarrow> Inl err
      | Inr s \<Rightarrow>
          (case call_input_embeddings (model s) of
             Inl err \<Rightarrow> Inl err
           | Inr embedding_weights \<Rightarrow>
               run_epochs lib es
                 (s\<lparr> env := (env s)(''embedding_weights'' \<mapsto> Weights embedding_weights),
                     saved := Some embedding_weights \<rparr>)))"

definition train :: "('b, 'r) library \<Rightarrow> globals \<Rightarrow> module \<Rightarrow> error + 'r state" where
  "train lib g m =
     run_epochs lib [0..<EPOCHS]
       \<lparr> model = m, env = bind_names g [''optimizer''], log_file = [], saved = None \<rparr>"

subsection \<open>Values for examples\<close>

text \<open>
  The dataset of the corpus \<open>a b a b\<close>; a model of its three words with
  embeddings of size two; a benchmark file of one row and one with a header only; a step
  that leaves the parameters as they are.
\<close>

definition small_dataset :: dataset where
  "small_dataset = notebook_dataset ''a b a b''"

definition small_model :: embedding_model where
  "small_model =
     \<lparr> self_vocab_size = 3, self_embed_size = 2,
       in_embed = [[1, 0], [0, 1], [1, 1]], out_embed = [[1, 1], [0, 2], [2, 0]] \<rparr>"

definition one_row :: "string \<Rightarrow> string \<Rightarrow> error + row list" where
  "one_row filename sep = Inr [(''tiger'', ''cat'', 7.35)]"


definition idle_step :: "module \<Rightarrow> nat \<Rightarrow> error + (embedding_model \<times> real)" where
  "idle_step m batch = Inr (parameters m, 0)"

definition small_library :: "(nat, real list \<times> real list) library" where
  "small_library =
     \<lparr> dataloader = (\<lambda>e. [0, 1]), step = idle_step, read_csv = one_row, spearmanr = Pair,
       np_argsort = stable_argsort \<rparr>"

text \<open>
  The globals after cell 18 for the corpus \<open>a b a b\<close>: the names of the vocabulary that
  cell 6 binds, and the two functions.
\<close>

definition small_globals :: globals where
  "small_globals =
     [''idx2word'' \<mapsto> Words [''a'', ''b'', ''<unk>''],
      ''word2idx'' \<mapsto> Dict [(''a'', 0), (''b'', 1), (''<unk>'', 2)],
      ''evaluate'' \<mapsto> Other, ''find_nearest'' \<mapsto> Other]"

section \<open>Properties\<close>

subsection \<open>Dictionaries and the counter\<close>

lemma map_fst_dict_set:
  "map fst (dict_set d k v) = (if k \<in> set (map fst d) then map fst d else map fst d @ [k])"
proof (induction d)
  case Nil
  then show ?case by simp
next
  case (Cons p d)
  obtain k' v' where p: "p = (k', v')" by (cases p)
  show ?case
    using Cons by (cases "k' = k") (simp_all add: p)
qed

lemma keys_dict_set: "fst ` set (dict_set d k v) = insert k (fst ` set d)"
  using arg_cong [OF map_fst_dict_set [of d k v], of set] by auto

lemma distinct_dict_set: "distinct (map fst d) \<Longrightarrow> distinct (map fst (dict_set d k v))"
  by (simp add: map_fst_dict_set)

lemma dict_set_new: "k \<notin> fst ` set d \<Longrightarrow> dict_set d k v = d @ [(k, v)]"
  by (induction d) auto

lemma dict_of_foldl_distinct:
  "distinct (map fst (d @ kvs)) \<Longrightarrow> foldl (\<lambda>d (k, v). dict_set d k v) d kvs = d @ kvs"
proof (induction kvs arbitrary: d)
  case Nil
  then show ?case by simp
next
  case (Cons p kvs)
  obtain k v where p: "p = (k, v)" by (cases p)
  have new: "k \<notin> fst ` set d"
    using Cons.prems by (auto simp: p)
  have "distinct (map fst ((d @ [(k, v)]) @ kvs))"
    using Cons.prems by (simp add: p)
  then have "foldl (\<lambda>d (k, v). dict_set d k v) (d @ [(k, v)]) kvs = (d @ [(k, v)]) @ kvs"
    by (rule Cons.IH)
  then show ?case
    by (simp add: p dict_set_new [OF new])
qed

lemma dict_of_distinct: "distinct (map fst kvs) \<Longrightarrow> dict_of kvs = kvs"
  using dict_of_foldl_distinct [of "[]" kvs] by (simp add: dict_of_def)

lemma dict_of_foldl_keys:
  "distinct (map fst d) \<Longrightarrow> distinct (map fst (foldl (\<lambda>d (k, v). dict_set d k v) d kvs))"
proof (induction kvs arbitrary: d)
  case Nil
  then show ?case by simp
next
  case (Cons p kvs)
  obtain k v where p: "p = (k, v)" by (cases p)
  show ?case
    using Cons.IH [OF distinct_dict_set [OF Cons.prems, of k v]] by (simp add: p)
qed

lemma distinct_dict_of: "distinct (map fst (dict_of kvs))"
  using dict_of_foldl_keys [of "[]" kvs] by (simp add: dict_of_def)

lemma sum_dict_set_count:
  "distinct (map fst d) \<Longrightarrow>
   sum_list (map snd (dict_set d w (dict_get d w 0 + 1))) = sum_list (map snd d) + (1::int)"
proof (induction d)
  case Nil
  then show ?case by (simp add: dict_get_def)
next
  case (Cons p d)
  obtain k v where p: "p = (k, v)" by (cases p)
  show ?case
  proof (cases "k = w")
    case True
    then show ?thesis by (simp add: p dict_get_def)
  next
    case False
    have "dict_get ((k, v) # d) w 0 = dict_get d w 0"
      using False by (simp add: dict_get_def)
    then show ?thesis
      using False Cons by (simp add: p)
  qed
qed

lemma Counter_foldl:
  assumes "distinct (map fst d)"
  shows "distinct (map fst (foldl (\<lambda>d w. dict_set d w (dict_get d w 0 + 1)) d ws))
         \<and> sum_list (map snd (foldl (\<lambda>d w. dict_set d w (dict_get d w 0 + 1)) d ws))
             = sum_list (map snd d) + int (length ws)
         \<and> fst ` set (foldl (\<lambda>d w. dict_set d w (dict_get d w 0 + 1)) d ws)
             = fst ` set d \<union> set ws"
  using assms
proof (induction ws arbitrary: d)
  case Nil
  then show ?case by simp
next
  case (Cons w ws)
  let ?d = "dict_set d w (dict_get d w 0 + 1)"
  have d: "distinct (map fst ?d)"
    by (rule distinct_dict_set [OF Cons.prems])
  have s: "sum_list (map snd ?d) = sum_list (map snd d) + 1"
    by (rule sum_dict_set_count [OF Cons.prems])
  have k: "fst ` set ?d = insert w (fst ` set d)"
    by (rule keys_dict_set)
  show ?case
    using Cons.IH [OF d] s k by auto
qed

lemma Counter_distinct: "distinct (map fst (Counter ws))"
  using Counter_foldl [of "[]" ws] by (simp add: Counter_def)


lemma Counter_keys: "fst ` set (Counter ws) = set ws"
  using Counter_foldl [of "[]" ws] by (simp add: Counter_def)

lemma most_common_distinct: "distinct (map fst cnt) \<Longrightarrow> distinct (map fst (most_common n cnt))"
proof -
  assume "distinct (map fst cnt)"
  then have "distinct (map fst (sort_key (\<lambda>(w, c). - c) cnt))"
    by (simp add: distinct_map)
  then show ?thesis
    unfolding most_common_def using distinct_take take_map by metis
qed

lemma most_common_keys: "fst ` set (most_common n cnt) \<subseteq> fst ` set cnt"
proof -
  have "set (most_common n cnt) \<subseteq> set cnt"
    unfolding most_common_def using set_take_subset [of n "sort_key (\<lambda>(w, c). - c) cnt"] by simp
  then show ?thesis by blast
qed

subsection \<open>Vocabulary construction\<close>

lemma sum_dict_set_new:
  "k \<notin> fst ` set d \<Longrightarrow> sum_list (map snd (dict_set d k v)) = sum_list (map snd d) + (v::int)"
  by (simp add: dict_set_new)

text \<open>
  Whatever the corpus, the keys of the vocabulary are distinct, so the indices
  \<open>word2idx\<close> assigns are the positions in \<open>idx2word\<close>: they are the numbers below
  \<open>vocab_size\<close>, each used once. A token that is not a key is encoded as
  \<open>vocab_size - 1\<close>.
\<close>

lemma build_vocab_distinct: "distinct (map fst (build_vocab ws))"
  by (simp add: build_vocab_def Let_def distinct_dict_set distinct_dict_of)

lemma word2idx_positions:
  assumes "i < vocab_size (text_preprocess_tokens ws)"
  shows "map_of (word2idx (text_preprocess_tokens ws)) (idx2word (text_preprocess_tokens ws) ! i)
           = Some i"
proof -
  let ?ks = "map fst (build_vocab ws)"
  have d: "distinct ?ks"
    by (rule build_vocab_distinct)
  have z: "map (\<lambda>(i, word). (word, i)) (enumerate ?ks) = zip ?ks [0..<length ?ks]"
    by (rule nth_equalityI) (simp_all add: enumerate_def)
  have "distinct (map fst (zip ?ks [0..<length ?ks]))"
    using d by simp
  then have w: "word2idx (text_preprocess_tokens ws) = zip ?ks [0..<length ?ks]"
    using z by (simp add: text_preprocess_tokens_def Let_def dict_keys_def dict_of_distinct)
  have i: "i < length ?ks"
    using assms by (simp add: text_preprocess_tokens_def Let_def dict_keys_def)
  have "map_of (zip ?ks [0..<length ?ks]) (?ks ! i) = Some ([0..<length ?ks] ! i)"
    using d i by (intro map_of_zip_nth) simp_all
  then show ?thesis
    using i by (simp add: w) (simp add: text_preprocess_tokens_def Let_def dict_keys_def)
qed

lemma word2idx_keys:
  "fst ` set (word2idx (text_preprocess_tokens ws)) = set (idx2word (text_preprocess_tokens ws))"
proof -
  let ?ks = "map fst (build_vocab ws)"
  have z: "map (\<lambda>(i, word). (word, i)) (enumerate ?ks) = zip ?ks [0..<length ?ks]"
    by (rule nth_equalityI) (simp_all add: enumerate_def)
  have "distinct (map fst (zip ?ks [0..<length ?ks]))"
    using build_vocab_distinct [of ws] by simp
  then have w: "word2idx (text_preprocess_tokens ws) = zip ?ks [0..<length ?ks]"
    using z by (simp add: text_preprocess_tokens_def Let_def dict_keys_def dict_of_distinct)
  have "map fst (zip ?ks [0..<length ?ks]) = ?ks"
    by simp
  then have "fst ` set (zip ?ks [0..<length ?ks]) = set ?ks"
    by (metis set_map)
  then show ?thesis
    by (simp add: w) (simp add: text_preprocess_tokens_def Let_def dict_keys_def)
qed

lemma unknown_token_encoding:
  assumes "t \<notin> set (idx2word p)" and "fst ` set (word2idx p) = set (idx2word p)"
  shows "text_encoded (WordEmbeddingDataset (vocab_size p) [t] (word2idx p) (idx2word p)
           (word_freqs p) (word_counts p)) = [int (vocab_size p) - 1]"
proof -
  have "t \<notin> fst ` set (map (\<lambda>(w, i). (w, int i)) (word2idx p))"
    using assms by force
  then have "map_of (map (\<lambda>(w, i). (w, int i)) (word2idx p)) t = None"
    by (simp add: map_of_eq_None_iff)
  then show ?thesis
    by (simp add: WordEmbeddingDataset_def dict_get_def)
qed

text \<open>
  For a corpus without the token \<open><unk>\<close>, the assignment to \<open>vocab["<unk>"]\<close> adds an
  entry at the end, and the counts add up to the number of tokens.
\<close>

lemma build_vocab_without_unk_token:
  assumes "''<unk>'' \<notin> set ws"
  shows "build_vocab ws =
           most_common (MAX_VOCAB_SIZE - 1) (Counter ws)
           @ [(''<unk>'', int (length ws)
                 - sum_list (map snd (most_common (MAX_VOCAB_SIZE - 1) (Counter ws))))]"
    and "sum_list (dict_values (build_vocab ws)) = int (length ws)"
    and "last (dict_keys (build_vocab ws)) = ''<unk>''"
proof -
  let ?top = "most_common (MAX_VOCAB_SIZE - 1) (Counter ws)"
  have d: "dict_of ?top = ?top"
    by (rule dict_of_distinct) (rule most_common_distinct, rule Counter_distinct)
  have "fst ` set ?top \<subseteq> set ws"
    using most_common_keys [of "MAX_VOCAB_SIZE - 1" "Counter ws"] by (simp add: Counter_keys)
  then have new: "''<unk>'' \<notin> fst ` set ?top"
    using assms by blast
  show v: "build_vocab ws = ?top @ [(''<unk>'', int (length ws) - sum_list (map snd ?top))]"
    unfolding build_vocab_def Let_def dict_values_def d by (rule dict_set_new [OF new])
  show "sum_list (dict_values (build_vocab ws)) = int (length ws)"
    by (simp add: v dict_values_def)
  show "last (dict_keys (build_vocab ws)) = ''<unk>''"
    by (simp add: v dict_keys_def)
qed

text \<open>
  Claim C4 says that the counts of the vocabulary, the one of \<open><unk>\<close> included, add up
  to the number of tokens of the corpus. The corpus \<open><unk> a\<close> has two tokens. The token
  \<open><unk>\<close> is among the most common ones, so the assignment to \<open>vocab["<unk>"]\<close>
  overwrites its count 1 with the residual 0, and the counts add up to 1.
\<close>

theorem unk_token_loses_its_count:
  "tokens (text_preprocess ''<unk> a'') = [''<unk>'', ''a'']
   \<and> build_vocab (tokens (text_preprocess ''<unk> a'')) = [(''<unk>'', 0), (''a'', 1)]
   \<and> word_counts (text_preprocess ''<unk> a'') = [0, 1]
   \<and> sum_list (word_counts (text_preprocess ''<unk> a'')) = 1
   \<and> length (tokens (text_preprocess ''<unk> a'')) = 2"
proof -
  have t: "word_tockenize (lower ''<unk> a'') = [''<unk>'', ''a'']"
    by (simp add: word_tockenize_def lower_def lower_char_def is_space_def)
  have v: "build_vocab [''<unk>'', ''a''] = [(''<unk>'', 0), (''a'', 1)]"
    by (simp add: build_vocab_def Counter_def dict_get_def dict_of_def most_common_def
        MAX_VOCAB_SIZE_def dict_values_def)
  show ?thesis
    by (simp add: text_preprocess_def text_preprocess_tokens_def Let_def t v dict_values_def)
qed

text \<open>
  Claim C6 says that the indices are the numbers below \<open>vocab_size\<close>, that \<open><unk>\<close>
  has the last of them, and that a token outside the vocabulary is encoded as that last
  index. For the corpus \<open><unk> a\<close> the vocabulary has two entries, and \<open><unk>\<close> has
  index 0, not the last index 1. A dataset over this vocabulary encodes a token outside
  it, such as \<open>b\<close>, as 1, which is the index of the word \<open>a\<close>.
\<close>

theorem unk_token_keeps_its_rank:
  "idx2word (text_preprocess ''<unk> a'') = [''<unk>'', ''a'']
   \<and> vocab_size (text_preprocess ''<unk> a'') = 2
   \<and> word2idx (text_preprocess ''<unk> a'') = [(''<unk>'', 0), (''a'', 1)]
   \<and> text_encoded (WordEmbeddingDataset (vocab_size (text_preprocess ''<unk> a''))
         [''<unk>'', ''b'', ''a''] (word2idx (text_preprocess ''<unk> a''))
         (idx2word (text_preprocess ''<unk> a'')) (word_freqs (text_preprocess ''<unk> a''))
         (word_counts (text_preprocess ''<unk> a''))) = [0, 1, 1]"
proof -
  have t: "word_tockenize (lower ''<unk> a'') = [''<unk>'', ''a'']"
    by (simp add: word_tockenize_def lower_def lower_char_def is_space_def)
  have v: "build_vocab [''<unk>'', ''a''] = [(''<unk>'', 0), (''a'', 1)]"
    by (simp add: build_vocab_def Counter_def dict_get_def dict_of_def most_common_def
        MAX_VOCAB_SIZE_def dict_values_def)
  show ?thesis
    by (simp add: text_preprocess_def text_preprocess_tokens_def Let_def t v dict_keys_def
        enumerate_def dict_of_def WordEmbeddingDataset_def dict_get_def upt_rec)
qed

subsection \<open>The sampling distribution in exact arithmetic\<close>























lemma tokens_abab: "word_tockenize (lower ''a b a b'') = [''a'', ''b'', ''a'', ''b'']"
  by (simp add: word_tockenize_def lower_def lower_char_def is_space_def)

lemma vocab_abab:
  "build_vocab [''a'', ''b'', ''a'', ''b''] = [(''a'', 2), (''b'', 2), (''<unk>'', 0)]"
  by (simp add: build_vocab_def Counter_def dict_get_def dict_of_def most_common_def
      MAX_VOCAB_SIZE_def dict_values_def)

lemma smooth_abab: "smooth [2, 2, 0] = Some [1 / 2, 1 / 2, 0]"
  by (simp add: smooth_def Let_def)




subsection \<open>The dataset\<close>

lemma length_py_range: "length (py_range a b) = nat (b - a)"
  by (simp add: py_range_def)

lemma length_pos_indices: "length (pos_indices n idx) = 2 * C"
  by (simp add: pos_indices_def length_py_range)

lemma py_range_shift: "py_range (idx + a) (idx + b) = map (\<lambda>d. idx + d) (py_range a b)"
proof (rule nth_equalityI)
  show "length (py_range (idx + a) (idx + b)) = length (map ((+) idx) (py_range a b))"
    by (simp add: length_py_range)
next
  fix i assume "i < length (py_range (idx + a) (idx + b))"
  then show "py_range (idx + a) (idx + b) ! i = map ((+) idx) (py_range a b) ! i"
    by (simp add: py_range_def)
qed

lemma pos_indices_offsets:
  "pos_indices n idx = map (\<lambda>d. (idx + d) mod int n) ([- int C..- 1] @ [1..int C])"
proof -
  have "py_range (idx - int C) idx = map (\<lambda>d. idx + d) (py_range (- int C) 0)"
    using py_range_shift [of idx "- int C" 0] by simp
  moreover have "py_range (idx + 1) (idx + int C + 1) = map (\<lambda>d. idx + d) (py_range 1 (int C + 1))"
    using py_range_shift [of idx 1 "int C + 1"] by (simp add: add.assoc)
  ultimately show ?thesis
    by (simp add: pos_indices_def comp_def py_range_def)
qed

lemma pos_indices_in_range:
  assumes "0 < n" and "p \<in> set (pos_indices n idx)"
  shows "0 \<le> p \<and> p < int n"
  using assms by (auto simp: pos_indices_def)

lemma tensor_at_list_in_range:
  "(\<And>i. i \<in> set js \<Longrightarrow> 0 \<le> i \<and> i < int (length xs)) \<Longrightarrow>
   tensor_at_list xs js = Inr (map (\<lambda>i. xs ! nat i) js)"
  by (induction js) (simp_all add: tensor_at_def)

lemma getitem_in_range:
  assumes "0 \<le> idx" and "idx < int (len ds)"
    and "ds_word_freqs ds = Some w" and "valid_weights w"
  shows "getitem draw ds idx =
           Inr (text_encoded ds ! nat idx,
                map (\<lambda>p. text_encoded ds ! nat p) (pos_indices (len ds) idx),
                map (draw w) [0..<K * 2 * C])"
proof -
  have n: "0 < length (text_encoded ds)"
    using assms by (auto simp: len_def)
  have "tensor_at_list (text_encoded ds) (pos_indices (length (text_encoded ds)) idx)
        = Inr (map (\<lambda>p. text_encoded ds ! nat p) (pos_indices (length (text_encoded ds)) idx))"
    by (rule tensor_at_list_in_range) (use n pos_indices_in_range in blast)
  then show ?thesis
    using assms
    by (simp add: getitem_def tensor_at_def multinomial_def length_pos_indices len_def mult.assoc
        K_def C_def)
qed



lemma small_dataset_eq:
  "small_dataset =
     \<lparr> text_encoded = [0, 1, 0, 1], ds_word2idx = [(''a'', 0), (''b'', 1), (''<unk>'', 2)],
       ds_idx2word = [''a'', ''b'', ''<unk>''], ds_word_freqs = Some [1 / 2, 1 / 2, 0],
       ds_word_counts = [2, 2, 0] \<rparr>"
  by (simp add: small_dataset_def notebook_dataset_def text_preprocess_def tokens_abab
      text_preprocess_tokens_def vocab_abab Let_def dict_keys_def dict_values_def enumerate_def
      dict_of_def smooth_abab WordEmbeddingDataset_def dict_get_def upt_rec)




lemma small_example:
  "getitem round_robin small_dataset 1 =
     Inr (1, [0, 1, 0, 0, 1, 0], map (round_robin [1 / 2, 1 / 2, 0]) [0..<K * 2 * C])"
proof -
  have p: "pos_indices (len small_dataset) 1 = [2, 3, 0, 2, 3, 0]"
    by (simp add: pos_indices_def py_range_def C_def upto_rec1 small_dataset_eq len_def)
  have "getitem round_robin small_dataset 1 =
          Inr (text_encoded small_dataset ! nat 1,
               map (\<lambda>p. text_encoded small_dataset ! nat p) (pos_indices (len small_dataset) 1),
               map (round_robin [1 / 2, 1 / 2, 0]) [0..<K * 2 * C])"
    by (rule getitem_in_range) (simp_all add: small_dataset_eq len_def valid_weights_def)
  then show ?thesis
    by (simp add: p) (simp add: small_dataset_eq)
qed

text \<open>
  An example of what the absence of a rejection step allows: at position 1 of the corpus
  \<open>a b a b\<close> the center word is 1 and the context holds word 0, and the generator
  \<open>round_robin\<close> returns both among the negatives.
\<close>

lemma negatives_repeat_center_and_context:
  "\<exists>neg_words. getitem round_robin small_dataset 1 = Inr (1, [0, 1, 0, 0, 1, 0], neg_words)
     \<and> neg_words ! 0 = 0 \<and> neg_words ! 1 = 1"
proof -
  let ?w = "[1 / 2, 1 / 2, 0] :: real list"
  have g: "getitem round_robin small_dataset 1 =
             Inr (1, [0, 1, 0, 0, 1, 0], map (round_robin ?w) [0..<K * 2 * C])"
    by (rule small_example)
  have support: "filter (\<lambda>i. 0 < [1 / 2, 1 / 2, 0 :: real] ! i) [0..<3] = [0, 1]"
    by (simp add: upt_rec)
  have r: "round_robin ?w 0 = 0" "round_robin ?w 1 = 1"
    by (simp_all add: round_robin_def support)
  have k: "0 < K * 2 * C" "1 < K * 2 * C"
    by (simp_all add: K_def C_def)
  have "map (round_robin ?w) [0..<K * 2 * C] ! 0 = 0"
    and "map (round_robin ?w) [0..<K * 2 * C] ! 1 = 1"
    using r nth_map_upt [of 0 "K * 2 * C" 0 "round_robin ?w"]
      nth_map_upt [of 1 "K * 2 * C" 0 "round_robin ?w"] k
    by simp_all
  with g show ?thesis by blast
qed

text \<open>
  Claim C3. At every position \<open>idx\<close> of the corpus the context positions are
  \<open>idx + d\<close> modulo the length of the corpus for \<open>d\<close> from \<open>-C\<close> to \<open>-1\<close> and from 1
  to \<open>C\<close>; all of them are positions of the corpus, and the context words returned are
  the words at these positions. For radius 3 and a corpus of length 10 the left context
  of position 0 is at positions 7, 8 and 9, and the right context of position 9 at
  positions 0, 1 and 2.
\<close>

theorem getitem_context_wraps:
  assumes "0 \<le> idx" and "idx < int (len ds)"
    and "ds_word_freqs ds = Some w" and "valid_weights w"
  shows "pos_indices (len ds) idx
           = map (\<lambda>d. (idx + d) mod int (len ds)) ([- int C..- 1] @ [1..int C])
         \<and> length (pos_indices (len ds) idx) = 2 * C
         \<and> list_all (\<lambda>p. 0 \<le> p \<and> p < int (len ds)) (pos_indices (len ds) idx)
         \<and> (\<exists>neg_words. getitem draw ds idx =
               Inr (text_encoded ds ! nat idx,
                    map (\<lambda>p. text_encoded ds ! nat p) (pos_indices (len ds) idx), neg_words))
         \<and> C = 3 \<and> take C (pos_indices 10 0) = [7, 8, 9]
         \<and> pos_indices 10 0 = [7, 8, 9, 1, 2, 3]
         \<and> pos_indices 10 9 = [6, 7, 8, 0, 1, 2]"
proof -
  have pos: "0 < len ds" using assms by auto
  have a: "pos_indices (len ds) idx
             = map (\<lambda>d. (idx + d) mod int (len ds)) ([- int C..- 1] @ [1..int C])"
    by (rule pos_indices_offsets)
  have b: "list_all (\<lambda>p. 0 \<le> p \<and> p < int (len ds)) (pos_indices (len ds) idx)"
    using pos pos_indices_in_range [of "len ds"] by (auto simp: list_all_iff)
  have c: "\<exists>neg_words. getitem draw ds idx =
               Inr (text_encoded ds ! nat idx,
                    map (\<lambda>p. text_encoded ds ! nat p) (pos_indices (len ds) idx), neg_words)"
    using getitem_in_range [OF assms, of draw] by simp
  have d: "pos_indices 10 0 = [7, 8, 9, 1, 2, 3]"
    by (simp add: pos_indices_def py_range_def C_def upto_rec1)
  have e: "C = 3" by (simp add: C_def)
  have f: "take C (pos_indices 10 0) = [7, 8, 9]"
    by (simp add: d e)
  have g: "pos_indices 10 9 = [6, 7, 8, 0, 1, 2]"
    by (simp add: pos_indices_def py_range_def C_def upto_rec1)
  from a b c d e f g show ?thesis
    using length_pos_indices [of "len ds" idx] by blast
qed

theorem getitem_context_wraps_witness:
  "(0::int) \<le> 0 \<and> 0 < int (len small_dataset)
   \<and> ds_word_freqs small_dataset = Some [1 / 2, 1 / 2, 0] \<and> valid_weights [1 / 2, 1 / 2, 0]
   \<and> pos_indices (len small_dataset) 0 = [1, 2, 3, 1, 2, 3]
   \<and> (\<exists>neg_words. getitem round_robin small_dataset 0 = Inr (0, [1, 0, 1, 1, 0, 1], neg_words))"
proof -
  have h: "(0::int) \<le> 0" "0 < int (len small_dataset)"
    "ds_word_freqs small_dataset = Some [1 / 2, 1 / 2, 0]" "valid_weights [1 / 2, 1 / 2, 0]"
    by (simp_all add: small_dataset_eq len_def valid_weights_def)
  have p: "pos_indices (len small_dataset) 0 = [1, 2, 3, 1, 2, 3]"
    by (simp add: pos_indices_def py_range_def C_def upto_rec1 small_dataset_eq len_def)
  show ?thesis
    using h getitem_context_wraps [OF h, of round_robin]
    by (simp add: p) (simp add: small_dataset_eq)
qed

subsection \<open>The loss\<close>

lemma sum1_few_dimensions: "length (shape t) < 2 \<Longrightarrow> sum1 t = Inl IndexError"
  by (cases "shape t") (auto simp: sum1_def split: list.splits)

text \<open>
  A batch of one example: the product with the context embeddings has shape
  \<open>[1, P, 1]\<close>, \<open>squeeze()\<close> removes the first dimension with the last, and \<open>sum(1)\<close>
  finds no dimension 1.
\<close>

lemma forward_single_example:
  assumes "shape input_labels = [1]"
    and "shape pos_labels = [1, P]" and "shape neg_labels = [1, N]"
    and "list_all (\<lambda>i. 0 \<le> i \<and> i < int (length (in_embed self))) (entries input_labels)"
    and "list_all (\<lambda>i. 0 \<le> i \<and> i < int (length (out_embed self))) (entries pos_labels)"
    and "list_all (\<lambda>i. 0 \<le> i \<and> i < int (length (out_embed self))) (entries neg_labels)"
  shows "forward self input_labels pos_labels neg_labels = Inl IndexError"
proof -
  let ?D = "self_embed_size self"
  obtain ie where ie: "embedding ?D (in_embed self) input_labels = Inr ie" "shape ie = [1, ?D]"
    using assms(1,4) by (simp add: embedding_def)
  obtain pe where pe: "embedding ?D (out_embed self) pos_labels = Inr pe" "shape pe = [1, P, ?D]"
    using assms(2,5) by (simp add: embedding_def)
  obtain ne where ne: "embedding ?D (out_embed self) neg_labels = Inr ne" "shape ne = [1, N, ?D]"
    using assms(3,6) by (simp add: embedding_def)
  obtain col where col: "unsqueeze 2 ie = Inr col" "shape col = [1, ?D, 1]"
    using ie(2) by (simp add: unsqueeze_def)
  obtain pp where pp: "bmm pe col = Inr pp" "shape pp = [1, P, 1]"
    using pe(2) col(2) by (simp add: bmm_def Let_def)
  obtain np where np: "bmm ne (negate col) = Inr np" "shape np = [1, N, 1]"
    using ne(2) col(2) by (simp add: bmm_def Let_def negate_def)
  have "length (shape (logsigmoid (squeeze pp))) < 2"
    using pp(2) by (simp add: logsigmoid_def squeeze_def)
  then have "sum1 (logsigmoid (squeeze pp)) = Inl IndexError"
    by (rule sum1_few_dimensions)
  then show ?thesis
    using assms(1) ie(1) pe(1) ne(1) col(1) pp(1) np(1)
    by (simp add: forward_def and_then_def size0_def)
qed

lemma round_robin_small: "round_robin [1 / 2, 1 / 2, 0] j < 2"
proof -
  have support: "filter (\<lambda>i. 0 < [1 / 2, 1 / 2, 0 :: real] ! i) [0..<3] = [0, 1]"
    by (simp add: upt_rec)
  have "[0, 1 :: nat] ! k < 2" if "k < 2" for k
    using that by (cases k) simp_all
  then have b: "[0, 1 :: nat] ! (j mod 2) < 2"
    by simp
  have l: "length [1 / 2, 1 / 2, 0 :: real] = 3" "length [0, 1 :: nat] = 2"
    by simp_all
  show ?thesis
    unfolding round_robin_def Let_def l support by (rule b)
qed

text \<open>
  Claim C1 says that \<open>forward\<close> returns, for every batch, one loss for each example,
  which the caller reduces to the mean. For the example of position 1 of the corpus
  \<open>a b a b\<close>, as a batch of its own, \<open>forward\<close> raises \<open>IndexError\<close> and returns no
  loss, so there is nothing to take the mean of.
\<close>

theorem forward_fails_on_single_example:
  "getitem round_robin small_dataset 1 =
     Inr (1, [0, 1, 0, 0, 1, 0], map (round_robin [1 / 2, 1 / 2, 0]) [0..<K * 2 * C])
   \<and> collate [(1, [0, 1, 0, 0, 1, 0], map (round_robin [1 / 2, 1 / 2, 0]) [0..<K * 2 * C])] =
       (\<lparr> shape = [1], entries = [1] \<rparr>,
        \<lparr> shape = [1, 6], entries = [0, 1, 0, 0, 1, 0] \<rparr>,
        \<lparr> shape = [1, 600],
          entries = map int (map (round_robin [1 / 2, 1 / 2, 0]) [0..<K * 2 * C]) \<rparr>)
   \<and> forward small_model \<lparr> shape = [1], entries = [1] \<rparr>
         \<lparr> shape = [1, 6], entries = [0, 1, 0, 0, 1, 0] \<rparr>
         \<lparr> shape = [1, 600],
           entries = map int (map (round_robin [1 / 2, 1 / 2, 0]) [0..<K * 2 * C]) \<rparr>
       = Inl IndexError
   \<and> batch_loss small_model
         (collate [(1, [0, 1, 0, 0, 1, 0], map (round_robin [1 / 2, 1 / 2, 0]) [0..<K * 2 * C])])
       = Inl IndexError"
proof -
  let ?neg = "map (round_robin [1 / 2, 1 / 2, 0]) [0..<K * 2 * C]"
  have g: "getitem round_robin small_dataset 1 = Inr (1, [0, 1, 0, 0, 1, 0], ?neg)"
    by (rule small_example)
  have c: "collate [(1, [0, 1, 0, 0, 1, 0], ?neg)] =
       (\<lparr> shape = [1], entries = [1] \<rparr>, \<lparr> shape = [1, 6], entries = [0, 1, 0, 0, 1, 0] \<rparr>,
        \<lparr> shape = [1, 600], entries = map int ?neg \<rparr>)"
    by (simp add: collate_def) (simp add: K_def C_def)
  have "list_all (\<lambda>i. 0 \<le> i \<and> i < int (length (out_embed small_model))) (map int ?neg)"
    using round_robin_small less_trans [OF round_robin_small, of 3]
    by (simp add: list_all_iff small_model_def)
  then have f: "forward small_model \<lparr> shape = [1], entries = [1] \<rparr>
         \<lparr> shape = [1, 6], entries = [0, 1, 0, 0, 1, 0] \<rparr>
         \<lparr> shape = [1, 600], entries = map int ?neg \<rparr> = Inl IndexError"
    by (intro forward_single_example [where P = 6 and N = 600]) (simp_all add: small_model_def)
  have "batch_loss small_model (collate [(1, [0, 1, 0, 0, 1, 0], ?neg)]) = Inl IndexError"
    by (simp only: c batch_loss_def prod.case f and_then_def sum.case)
  with g c f show ?thesis
    by (intro conjI)
qed

subsection \<open>The loss of a batch of several examples\<close>

lemma nth_concat_rows:
  assumes "\<forall>r\<in>set rows. length r = D" and "i < length rows" and "l < D"
  shows "concat rows ! (i * D + l) = rows ! i ! l"
  using assms
proof (induction rows arbitrary: i)
  case Nil
  then show ?case by simp
next
  case (Cons r rows)
  show ?case
  proof (cases i)
    case 0
    then show ?thesis using Cons.prems by (simp add: nth_append)
  next
    case (Suc i')
    have "concat (r # rows) ! (i * D + l) = concat rows ! (i' * D + l)"
      using Cons.prems Suc by (simp add: nth_append)
    also have "\<dots> = rows ! i' ! l"
      using Cons.prems Suc by (intro Cons.IH) simp_all
    finally show ?thesis using Suc by simp
  qed
qed

lemma flat_index_bound: "i < B \<Longrightarrow> j < P \<Longrightarrow> i * P + j < B * (P::nat)"
proof -
  assume "i < B" and "j < P"
  then have "i * P + j < Suc i * P" by simp
  also have "\<dots> \<le> B * P"
    using \<open>i < B\<close> by (intro mult_le_mono1) simp
  finally show ?thesis .
qed

lemma dot_nth:
  assumes "length u = D" and "length v = D"
  shows "dot u v = sum_list (map (\<lambda>l. u ! l * v ! l) [0..<D])"
proof -
  have "zip u v = map (\<lambda>l. (u ! l, v ! l)) [0..<D]"
    using assms by (intro nth_equalityI) simp_all
  then show ?thesis
    by (simp add: dot_def comp_def)
qed

lemma dot_uminus: "dot u (map uminus v) = - dot u v"
proof (induction u arbitrary: v)
  case Nil
  then show ?case by (simp add: dot_def)
next
  case (Cons x u)
  then show ?case
    by (cases v) (simp_all add: dot_def)
qed

lemma row_length:
  assumes "\<forall>r\<in>set W. length r = D" and "0 \<le> x \<and> x < int (length W)"
  shows "length (W ! nat x) = D"
proof -
  have "nat x < length W"
    using assms(2) by linarith
  then show ?thesis
    using assms(1) nth_mem by blast
qed

lemma embedded_entry:
  assumes "\<forall>r\<in>set W. length r = D"
    and "list_all (\<lambda>i. 0 \<le> i \<and> i < int (length W)) ls"
    and "n < length ls" and "l < D"
  shows "concat (map (\<lambda>i. W ! nat i) ls) ! (n * D + l) = W ! nat (ls ! n) ! l"
proof -
  have "\<forall>r\<in>set (map (\<lambda>i. W ! nat i) ls). length r = D"
    using assms(1,2) by (auto simp: list_all_iff)
  then have "concat (map (\<lambda>i. W ! nat i) ls) ! (n * D + l) = map (\<lambda>i. W ! nat i) ls ! n ! l"
    using assms(3,4) by (intro nth_concat_rows) simp_all
  then show ?thesis
    using assms(3) by simp
qed

lemma bmm_of_embeddings:
  assumes W: "\<forall>r\<in>set W. length r = D" and V: "\<forall>r\<in>set V. length r = D"
    and ls: "length ls = B * P" "list_all (\<lambda>i. 0 \<le> i \<and> i < int (length W)) ls"
    and cs: "length cs = B" "list_all (\<lambda>i. 0 \<le> i \<and> i < int (length V)) cs"
  shows "bmm \<lparr> shape = [B, P, D], entries = concat (map (\<lambda>i. W ! nat i) ls) \<rparr>
             \<lparr> shape = [B, D, 1], entries = concat (map (\<lambda>i. V ! nat i) cs) \<rparr>
         = Inr \<lparr> shape = [B, P, 1],
                 entries = concat (map (\<lambda>i. map (\<lambda>j.
                     dot (W ! nat (ls ! (i * P + j))) (V ! nat (cs ! i))) [0..<P]) [0..<B]) \<rparr>"
proof -
  let ?a = "concat (map (\<lambda>i. W ! nat i) ls)" and ?b = "concat (map (\<lambda>i. V ! nat i) cs)"
  have entry: "sum_list (map (\<lambda>l. ?a ! (i * P * D + j * D + l) * ?b ! (i * D * 1 + l * 1 + 0)) [0..<D])
                 = dot (W ! nat (ls ! (i * P + j))) (V ! nat (cs ! i))"
    if "i < B" and "j < P" for i j
  proof -
    have n: "i * P + j < length ls"
      using that ls(1) by (simp add: flat_index_bound)
    have wl: "0 \<le> ls ! (i * P + j) \<and> ls ! (i * P + j) < int (length W)"
      using n ls(2) by (simp add: list_all_length)
    have vl: "0 \<le> cs ! i \<and> cs ! i < int (length V)"
      using that(1) cs by (simp add: list_all_length)
    have lw: "length (W ! nat (ls ! (i * P + j))) = D"
      by (rule row_length [OF W wl])
    have lv: "length (V ! nat (cs ! i)) = D"
      by (rule row_length [OF V vl])
    have "?a ! (i * P * D + j * D + l) * ?b ! (i * D * 1 + l * 1 + 0)
            = W ! nat (ls ! (i * P + j)) ! l * V ! nat (cs ! i) ! l" if "l < D" for l
    proof -
      have "i * P * D + j * D + l = (i * P + j) * D + l"
        by (simp add: algebra_simps)
      then have "?a ! (i * P * D + j * D + l) = W ! nat (ls ! (i * P + j)) ! l"
        using embedded_entry [OF W ls(2) n that] by simp
      moreover have "?b ! (i * D * 1 + l * 1 + 0) = V ! nat (cs ! i) ! l"
        using embedded_entry [OF V cs(2), of i l] \<open>i < B\<close> cs(1) that by simp
      ultimately show ?thesis by simp
    qed
    then have "map (\<lambda>l. ?a ! (i * P * D + j * D + l) * ?b ! (i * D * 1 + l * 1 + 0)) [0..<D]
                 = map (\<lambda>l. W ! nat (ls ! (i * P + j)) ! l * V ! nat (cs ! i) ! l) [0..<D]"
      by (intro map_cong) simp_all
    then show ?thesis
      by (simp only: dot_nth [OF lw lv])
  qed
  have "concat (map (\<lambda>i. concat (map (\<lambda>j. map (\<lambda>k.
            sum_list (map (\<lambda>l. ?a ! (i * P * D + j * D + l) * ?b ! (i * D * 1 + l * 1 + k)) [0..<D]))
            [0..<1]) [0..<P])) [0..<B])
        = concat (map (\<lambda>i. map (\<lambda>j.
            dot (W ! nat (ls ! (i * P + j))) (V ! nat (cs ! i))) [0..<P]) [0..<B])"
  proof (intro arg_cong [where f = concat] map_cong refl)
    fix i assume "i \<in> set [0..<B]"
    then have i: "i < B" by simp
    have "concat (map (\<lambda>j. map (\<lambda>k.
            sum_list (map (\<lambda>l. ?a ! (i * P * D + j * D + l) * ?b ! (i * D * 1 + l * 1 + k)) [0..<D]))
            [0..<1]) [0..<P])
          = map (\<lambda>j. sum_list (map (\<lambda>l. ?a ! (i * P * D + j * D + l)
                  * ?b ! (i * D * 1 + l * 1 + 0)) [0..<D])) [0..<P]"
      by (simp del: mult_1_right add_0_right)
    also have "\<dots> = map (\<lambda>j. dot (W ! nat (ls ! (i * P + j))) (V ! nat (cs ! i))) [0..<P]"
      using entry [OF i] by (intro map_cong) simp_all
    finally show "concat (map (\<lambda>j. map (\<lambda>k.
            sum_list (map (\<lambda>l. ?a ! (i * P * D + j * D + l) * ?b ! (i * D * 1 + l * 1 + k)) [0..<D]))
            [0..<1]) [0..<P])
          = map (\<lambda>j. dot (W ! nat (ls ! (i * P + j))) (V ! nat (cs ! i))) [0..<P]" .
  qed
  then show ?thesis
    by (simp add: bmm_def Let_def)
qed

lemma sum1_logsigmoid_squeeze:
  assumes "B \<noteq> 1" and "P \<noteq> 1"
  shows "sum1 (logsigmoid (squeeze
           \<lparr> shape = [B, P, 1], entries = concat (map (\<lambda>i. map (f i) [0..<P]) [0..<B]) \<rparr>))
         = Inr \<lparr> shape = [B],
                 entries = map (\<lambda>i. sum_list (map (\<lambda>j. log_sigmoid (f i j)) [0..<P])) [0..<B] \<rparr>"
proof -
  let ?rows = "map (\<lambda>i. map (\<lambda>j. log_sigmoid (f i j)) [0..<P]) [0..<B]"
  have e: "map log_sigmoid (concat (map (\<lambda>i. map (f i) [0..<P]) [0..<B])) = concat ?rows"
    by (simp add: map_concat comp_def)
  have entry: "concat ?rows ! (i * P + j) = log_sigmoid (f i j)" if "i < B" and "j < P" for i j
  proof -
    have "concat ?rows ! (i * P + j) = ?rows ! i ! j"
      using that by (intro nth_concat_rows) simp_all
    then show ?thesis using that by simp
  qed
  have "map (\<lambda>i. sum_list (map (\<lambda>j. concat ?rows ! (i * P + j)) [0..<P])) [0..<B]
          = map (\<lambda>i. sum_list (map (\<lambda>j. log_sigmoid (f i j)) [0..<P])) [0..<B]"
  proof (intro map_cong refl arg_cong [where f = sum_list])
    fix i j assume "i \<in> set [0..<B]" and "j \<in> set [0..<P]"
    then show "concat ?rows ! (i * P + j) = log_sigmoid (f i j)"
      using entry by simp
  qed
  then show ?thesis
    using assms by (simp add: sum1_def logsigmoid_def squeeze_def e)
qed

text \<open>
  For a batch of \<open>B\<close> examples with \<open>P\<close> context words and \<open>N\<close> negatives each, where
  none of the three numbers is one, \<open>forward\<close> returns a tensor of shape \<open>[B]\<close> whose
  entry for an example is the negative of the sum, over its context words, of the
  log-sigmoid of the product of the input embedding of the center word with the output
  embedding of the context word, plus the sum, over its negatives, of the log-sigmoid of
  the negated product with the output embedding of the negative.
\<close>

lemma forward_per_example_loss:
  assumes rows: "\<forall>r\<in>set (in_embed self). length r = self_embed_size self"
      "\<forall>r\<in>set (out_embed self). length r = self_embed_size self"
    and cs: "length cs = B" "list_all (\<lambda>i. 0 \<le> i \<and> i < int (length (in_embed self))) cs"
    and ps: "length ps = B * P" "list_all (\<lambda>i. 0 \<le> i \<and> i < int (length (out_embed self))) ps"
    and ns: "length ns = B * N" "list_all (\<lambda>i. 0 \<le> i \<and> i < int (length (out_embed self))) ns"
    and several: "B \<noteq> 1" "P \<noteq> 1" "N \<noteq> 1"
  shows "forward self \<lparr> shape = [B], entries = cs \<rparr> \<lparr> shape = [B, P], entries = ps \<rparr>
           \<lparr> shape = [B, N], entries = ns \<rparr>
         = Inr \<lparr> shape = [B],
                 entries = map (\<lambda>b.
                   - (sum_list (map (\<lambda>j. log_sigmoid
                          (dot (out_embed self ! nat (ps ! (b * P + j)))
                               (in_embed self ! nat (cs ! b)))) [0..<P])
                      + sum_list (map (\<lambda>j. log_sigmoid
                          (- dot (out_embed self ! nat (ns ! (b * N + j)))
                                 (in_embed self ! nat (cs ! b)))) [0..<N]))) [0..<B] \<rparr>"
proof -
  let ?D = "self_embed_size self" and ?V = "in_embed self" and ?W = "out_embed self"
  let ?V' = "map (map uminus) ?V"
  let ?col = "\<lparr> shape = [B, ?D, 1], entries = concat (map (\<lambda>i. ?V ! nat i) cs) \<rparr>"
  have ie: "embedding ?D ?V \<lparr> shape = [B], entries = cs \<rparr>
              = Inr \<lparr> shape = [B, ?D], entries = concat (map (\<lambda>i. ?V ! nat i) cs) \<rparr>"
    using cs(2) by (simp add: embedding_def)
  have pe: "embedding ?D ?W \<lparr> shape = [B, P], entries = ps \<rparr>
              = Inr \<lparr> shape = [B, P, ?D], entries = concat (map (\<lambda>i. ?W ! nat i) ps) \<rparr>"
    using ps(2) by (simp add: embedding_def)
  have ne: "embedding ?D ?W \<lparr> shape = [B, N], entries = ns \<rparr>
              = Inr \<lparr> shape = [B, N, ?D], entries = concat (map (\<lambda>i. ?W ! nat i) ns) \<rparr>"
    using ns(2) by (simp add: embedding_def)
  have col: "unsqueeze 2 \<lparr> shape = [B, ?D], entries = concat (map (\<lambda>i. ?V ! nat i) cs) \<rparr>
               = Inr ?col"
    by (simp add: unsqueeze_def)
  have m: "map (\<lambda>i. map uminus (?V ! nat i)) cs = map (\<lambda>i. ?V' ! nat i) cs"
  proof (intro map_cong refl)
    fix i assume "i \<in> set cs"
    then have "0 \<le> i \<and> i < int (length ?V)"
      using cs(2) by (simp add: list_all_iff)
    then have "nat i < length ?V" by linarith
    then show "map uminus (?V ! nat i) = ?V' ! nat i" by simp
  qed
  have "map uminus (concat (map (\<lambda>i. ?V ! nat i) cs))
          = concat (map (\<lambda>i. map uminus (?V ! nat i)) cs)"
    by (simp add: map_concat comp_def)
  then have "map uminus (concat (map (\<lambda>i. ?V ! nat i) cs))
          = concat (map (\<lambda>i. ?V' ! nat i) cs)"
    by (simp only: m)
  then have ncol: "negate ?col
               = \<lparr> shape = [B, ?D, 1], entries = concat (map (\<lambda>i. ?V' ! nat i) cs) \<rparr>"
    by (simp add: negate_def)
  have rows': "\<forall>r\<in>set ?V'. length r = ?D"
    using rows(1) by simp
  have cs': "list_all (\<lambda>i. 0 \<le> i \<and> i < int (length ?V')) cs"
    using cs(2) by simp
  have pp: "bmm \<lparr> shape = [B, P, ?D], entries = concat (map (\<lambda>i. ?W ! nat i) ps) \<rparr> ?col
              = Inr \<lparr> shape = [B, P, 1],
                      entries = concat (map (\<lambda>i. map (\<lambda>j.
                        dot (?W ! nat (ps ! (i * P + j))) (?V ! nat (cs ! i))) [0..<P]) [0..<B]) \<rparr>"
    by (rule bmm_of_embeddings [OF rows(2) rows(1) ps cs])
  have "concat (map (\<lambda>i. map (\<lambda>j.
            dot (?W ! nat (ns ! (i * N + j))) (?V' ! nat (cs ! i))) [0..<N]) [0..<B])
        = concat (map (\<lambda>i. map (\<lambda>j.
            - dot (?W ! nat (ns ! (i * N + j))) (?V ! nat (cs ! i))) [0..<N]) [0..<B])"
  proof (intro arg_cong [where f = concat] map_cong refl)
    fix i j assume "i \<in> set [0..<B]"
    then have "0 \<le> cs ! i \<and> cs ! i < int (length ?V)"
      using cs by (simp add: list_all_length)
    then have "nat (cs ! i) < length ?V" by linarith
    then show "dot (?W ! nat (ns ! (i * N + j))) (?V' ! nat (cs ! i))
                 = - dot (?W ! nat (ns ! (i * N + j))) (?V ! nat (cs ! i))"
      by (simp add: dot_uminus)
  qed
  then have np: "bmm \<lparr> shape = [B, N, ?D], entries = concat (map (\<lambda>i. ?W ! nat i) ns) \<rparr>
                   (negate ?col)
              = Inr \<lparr> shape = [B, N, 1],
                      entries = concat (map (\<lambda>i. map (\<lambda>j.
                        - dot (?W ! nat (ns ! (i * N + j))) (?V ! nat (cs ! i))) [0..<N]) [0..<B]) \<rparr>"
    using bmm_of_embeddings [OF rows(2) rows' ns cs(1) cs'] by (simp only: ncol)
  have lp: "sum1 (logsigmoid (squeeze \<lparr> shape = [B, P, 1],
                      entries = concat (map (\<lambda>i. map (\<lambda>j.
                        dot (?W ! nat (ps ! (i * P + j))) (?V ! nat (cs ! i))) [0..<P]) [0..<B]) \<rparr>))
              = Inr \<lparr> shape = [B], entries = map (\<lambda>i. sum_list (map (\<lambda>j. log_sigmoid
                        (dot (?W ! nat (ps ! (i * P + j))) (?V ! nat (cs ! i)))) [0..<P])) [0..<B] \<rparr>"
    by (rule sum1_logsigmoid_squeeze [OF several(1,2)])
  have ln: "sum1 (logsigmoid (squeeze \<lparr> shape = [B, N, 1],
                      entries = concat (map (\<lambda>i. map (\<lambda>j.
                        - dot (?W ! nat (ns ! (i * N + j))) (?V ! nat (cs ! i))) [0..<N]) [0..<B]) \<rparr>))
              = Inr \<lparr> shape = [B], entries = map (\<lambda>i. sum_list (map (\<lambda>j. log_sigmoid
                        (- dot (?W ! nat (ns ! (i * N + j))) (?V ! nat (cs ! i)))) [0..<N])) [0..<B] \<rparr>"
    by (rule sum1_logsigmoid_squeeze [OF several(1,3)])
  have m2: "map2 (+) (map g [0..<B]) (map h [0..<B]) = map (\<lambda>i. g i + h i) [0..<B]"
    for g h :: "nat \<Rightarrow> real"
    by (intro nth_equalityI) simp_all
  have s0: "size0 \<lparr> shape = [B], entries = cs \<rparr> = Inr B"
    by (simp add: size0_def)
  have sum: "add \<lparr> shape = [B], entries = map g [0..<B] \<rparr>
                 \<lparr> shape = [B], entries = map h [0..<B] \<rparr>
               = Inr \<lparr> shape = [B], entries = map (\<lambda>i. g i + h i) [0..<B] \<rparr>"
    for g h :: "nat \<Rightarrow> real"
    by (simp add: add_def m2)
  have neg: "negate \<lparr> shape = [B], entries = map g [0..<B] \<rparr>
               = \<lparr> shape = [B], entries = map (\<lambda>i. - g i) [0..<B] \<rparr>"
    for g :: "nat \<Rightarrow> real"
    by (simp add: negate_def)
  show ?thesis
    unfolding forward_def
    by (simp only: s0 and_then_def sum.case ie pe ne col pp np lp ln sum neg)
qed

subsection \<open>Global names, evaluate and find_nearest\<close>

lemma notebook_names_unbound:
  "\<not> session_name ''word_to_idx''" "\<not> session_name ''idx_to_word''"
  by (simp_all add: session_name_def notebook_names_def names_before_training_def
      names_of_training_def)

lemma unbound_in_notebook:
  assumes "notebook_session g"
  shows "global g ''word_to_idx'' = Inl (NameError ''word_to_idx'')"
proof -
  have "''word_to_idx'' \<notin> dom g"
    using assms notebook_names_unbound(1) by (auto simp: notebook_session_def)
  then show ?thesis
    by (simp add: global_def domIff)
qed



lemma small_globals_dom: "notebook_session small_globals"
  by (auto simp: notebook_session_def session_name_def small_globals_def notebook_names_def
      names_before_training_def split: if_splits)

text \<open>
  With \<open>word_to_idx\<close> bound to a dictionary whose indices are rows of the weights, the
  loop of \<open>evaluate\<close> skips the rows with a word that is not a key and collects the score
  and the cosine similarity of the others, in the order of the file.
\<close>

lemma evaluate_rows_bound:
  assumes "g ''word_to_idx'' = Some (Dict d)"
    and "\<And>w i. map_of d w = Some i \<Longrightarrow> i < length ew"
  shows "evaluate_rows g ew rows hs ms =
           Inr (hs @ map (\<lambda>(word1, word2, score). score)
                      (filter (\<lambda>(word1, word2, score).
                         map_of d word1 \<noteq> None \<and> map_of d word2 \<noteq> None) rows),
                ms @ map (\<lambda>(word1, word2, score).
                       cosine_similarity (ew ! the (map_of d word1)) (ew ! the (map_of d word2)))
                     (filter (\<lambda>(word1, word2, score).
                         map_of d word1 \<noteq> None \<and> map_of d word2 \<noteq> None) rows))"
proof (induction rows arbitrary: hs ms)
  case Nil
  then show ?case by simp
next
  case (Cons r rows)
  obtain word1 word2 score where r: "r = (word1, word2, score)"
    by (cases r)
  show ?case
  proof (cases "map_of d word1 \<noteq> None \<and> map_of d word2 \<noteq> None")
    case True
    then obtain i j where ij: "map_of d word1 = Some i" "map_of d word2 = Some j"
      by auto
    then have "i < length ew" "j < length ew"
      using assms(2) by blast+
    then show ?thesis
      using ij assms(1) Cons.IH by (simp add: r global_def)
  next
    case False
    then show ?thesis
      using assms(1) Cons.IH by (auto simp: r global_def)
  qed
qed

lemma evaluate_bound:
  assumes "g ''word_to_idx'' = Some (Dict d)"
    and "\<And>w i. map_of d w = Some i \<Longrightarrow> i < length ew"
    and "(if endswith filename ''.csv'' then rd filename '','' else rd filename [CHR 0x09])
           = Inr rows"
  shows "evaluate rd sp g filename ew =
           Inr (sp (map (\<lambda>(word1, word2, score). score)
                      (filter (\<lambda>(word1, word2, score).
                         map_of d word1 \<noteq> None \<and> map_of d word2 \<noteq> None) rows))
                   (map (\<lambda>(word1, word2, score).
                       cosine_similarity (ew ! the (map_of d word1)) (ew ! the (map_of d word2)))
                     (filter (\<lambda>(word1, word2, score).
                         map_of d word1 \<noteq> None \<and> map_of d word2 \<noteq> None) rows)))"
proof -
  have "\<And>w i. map_of d w = Some i \<Longrightarrow> i < length ew"
    using assms(2) by blast
  then show ?thesis
    using evaluate_rows_bound [of g d ew rows "[]" "[]"] assms(1,3)
    by (simp add: evaluate_def and_then_def)
qed

text \<open>
  Claim C7 says that \<open>evaluate\<close> skips the pairs with a word outside the vocabulary
  and returns the rank correlation of the others. In the notebook the pairs are neither
  skipped nor scored: with a benchmark file of one row, \<open>evaluate\<close> raises \<open>NameError\<close>
  for \<open>word_to_idx\<close> at the first row, whatever the words are.
\<close>

theorem evaluate_raises_name_error:
  "notebook_session small_globals
   \<and> evaluate one_row Pair small_globals ''simlex-999.txt'' (in_embed small_model)
       = Inl (NameError ''word_to_idx'')"
  using small_globals_dom unbound_in_notebook [OF small_globals_dom]
  by (simp add: evaluate_def and_then_def one_row_def endswith_def)

text \<open>
  Claim C9 says that \<open>find_nearest\<close> returns the ten words nearest to the query by
  cosine distance, the query not excluded. In the notebook it returns no neighbours: its
  first line reads \<open>word_to_idx\<close> and raises \<open>NameError\<close>, also after the training loop
  has bound \<open>embedding_weights\<close>.
\<close>

theorem find_nearest_raises_name_error:
  "find_nearest argsort
     (small_globals(''embedding_weights'' \<mapsto> Weights (in_embed small_model))) ''a''
     = Inl (NameError ''word_to_idx'')"
  by (simp add: find_nearest_def global_def small_globals_def)




subsection \<open>find_nearest with its globals bound\<close>

lemma words_at_in_range:
  "\<forall>i\<in>set js. i < length ws \<Longrightarrow> words_at ws js = Inr (map (\<lambda>i. ws ! i) js)"
  by (induction js) (simp_all add: and_then_def)

lemma stable_argsort_indices: "set (stable_argsort ds) = {0..<length ds}"
  by (auto simp: stable_argsort_def)

lemma length_stable_argsort: "length (stable_argsort ds) = length ds"
proof -
  have "length (filter (\<lambda>i. ds ! i \<noteq> None) [0..<length ds])
          + length (filter (\<lambda>i. \<not> ds ! i \<noteq> None) [0..<length ds]) = length [0..<length ds]"
    by (rule sum_length_filter_compl)
  then show ?thesis
    by (simp add: stable_argsort_def)
qed

lemma stable_argsort_ascending:
  "sorted (map (\<lambda>i. the (ds ! i))
     (take (length (filter (\<lambda>i. ds ! i \<noteq> None) [0..<length ds])) (stable_argsort ds)))"
  by (simp add: stable_argsort_def)

lemma cosine_self: "l2_norm e \<noteq> 0 \<Longrightarrow> cosine e e = Some 0"
proof -
  assume n: "l2_norm e \<noteq> 0"
  have "0 \<le> dot e e"
    unfolding dot_def by (induction e) simp_all
  then have sq: "l2_norm e * l2_norm e = dot e e"
    by (simp add: l2_norm_def)
  then have "dot e e \<noteq> 0"
    using n by (metis mult_eq_0_iff)
  then have q: "dot e e / (l2_norm e * l2_norm e) = 1"
    by (simp add: sq)
  have nz: "l2_norm e * l2_norm e \<noteq> 0"
    using n by simp
  show ?thesis
    unfolding cosine_def q using nz by simp
qed

text \<open>
  With \<open>word_to_idx\<close>, \<open>embedding_weights\<close> and \<open>idx_to_word\<close> bound to a vocabulary and
  its embeddings, and for every \<open>argsort\<close> that returns each index once,
  \<open>find_nearest\<close> returns the words of the first ten indices in the order \<open>argsort\<close>
  gives to their cosine distances to the query, fewer for fewer than ten words; no index
  is left out, the one of the query included.
\<close>

lemma find_nearest_bound:
  assumes "g ''word_to_idx'' = Some (Dict d)" and "map_of d word = Some index"
    and "g ''embedding_weights'' = Some (Weights ew)" and "index < length ew"
    and "g ''idx_to_word'' = Some (Words ws)" and "length ew \<le> length ws"
    and "set (argsort (map (\<lambda>e. cosine e (ew ! index)) ew)) = {0..<length ew}"
    and "length (argsort (map (\<lambda>e. cosine e (ew ! index)) ew)) = length ew"
  shows "find_nearest argsort g word =
           Inr (map (\<lambda>i. ws ! i) (take 10 (argsort (map (\<lambda>e. cosine e (ew ! index)) ew))))"
    and "length (take 10 (argsort (map (\<lambda>e. cosine e (ew ! index)) ew))) = min 10 (length ew)"
proof -
  let ?order = "argsort (map (\<lambda>e. cosine e (ew ! index)) ew)"
  have "\<forall>i\<in>set (take 10 ?order). i < length ws"
  proof
    fix i assume "i \<in> set (take 10 ?order)"
    then have "i \<in> set ?order" by (rule in_set_takeD)
    then have "i < length ew" by (simp add: assms(7))
    then show "i < length ws" using assms(6) by simp
  qed
  then have "words_at ws (take 10 ?order) = Inr (map (\<lambda>i. ws ! i) (take 10 ?order))"
    by (rule words_at_in_range)
  then show "find_nearest argsort g word = Inr (map (\<lambda>i. ws ! i) (take 10 ?order))"
    using assms(1-5) by (simp add: find_nearest_def global_def Let_def)
  show "length (take 10 ?order) = min 10 (length ew)"
    by (simp add: assms(8) min.commute)
qed

lemma find_nearest_missing_key:
  "g ''word_to_idx'' = Some (Dict d) \<Longrightarrow> map_of d word = None \<Longrightarrow>
   find_nearest argsort g word = Inl (KeyError word)"
  by (simp add: find_nearest_def global_def)

subsection \<open>The wrapped model in the training loop\<close>

lemma build_model_wrapped:
  "1 < NUM_CUDA \<Longrightarrow> build_model USE_CUDA NUM_CUDA m = DataParallel m"
  by (simp add: build_model_def)

lemma periodic_evaluation_wrapped:
  "model s = DataParallel m \<Longrightarrow>
   periodic_evaluation lib e i s = Inl (AttributeError ''DataParallel'' ''input_embeddings'')"
  by (simp add: periodic_evaluation_def and_then_def)

lemma run_batches_wrapped:
  assumes "model s = DataParallel m" and "i mod 2000 = 0"
  shows "run_batches lib e i (batch # rest) s =
           (case step lib (DataParallel m) batch of
              Inl err \<Rightarrow> Inl err
            | Inr r \<Rightarrow> Inl (AttributeError ''DataParallel'' ''input_embeddings''))"
proof (cases "step lib (DataParallel m) batch")
  case (Inl err)
  then show ?thesis using assms by simp
next
  case (Inr r)
  obtain params loss where r: "r = (params, loss)"
    by (cases r)
  have "periodic_evaluation lib e i s' = Inl (AttributeError ''DataParallel'' ''input_embeddings'')"
    if "model s' = DataParallel params" for s'
    using that by (rule periodic_evaluation_wrapped)
  then show ?thesis
    using Inr assms by (simp add: r Let_def)
qed

text \<open>
  Claim C8. With more than one device the model is the wrapper, and on a wrapper every
  periodic evaluation raises \<open>AttributeError\<close> for \<open>input_embeddings\<close>, whatever the
  parameters, the globals and the log are. Nothing catches it: a pass of the loop that
  reaches the evaluation ends the loop with this exception, and the batches that are left
  are not run. So the training ends with the exception at the first batch of the first
  epoch, where \<open>i % 2000 == 0\<close> holds (with no batch at all, at the call after the inner
  loop), unless the step on that batch has raised before.
\<close>

theorem data_parallel_halts_training:
  assumes "1 < NUM_CUDA"
    and "model s = with_parameters (build_model USE_CUDA NUM_CUDA m) params"
    and "i mod 2000 = 0" and "step lib (model s) batch = Inr (params', loss)"
  shows "periodic_evaluation (lib :: ('b, 'r) library) e i s
           = Inl (AttributeError ''DataParallel'' ''input_embeddings'')
         \<and> run_batches lib e i (batch # rest) s
           = Inl (AttributeError ''DataParallel'' ''input_embeddings'')
         \<and> (train lib g (build_model USE_CUDA NUM_CUDA m)
               = Inl (AttributeError ''DataParallel'' ''input_embeddings'')
             \<or> (\<exists>batch rest err. dataloader lib 0 = batch # rest
                   \<and> step lib (build_model USE_CUDA NUM_CUDA m) batch = Inl err
                   \<and> train lib g (build_model USE_CUDA NUM_CUDA m) = Inl err))"
proof -
  let ?err = "AttributeError ''DataParallel'' ''input_embeddings''"
  let ?s = "\<lparr> model = DataParallel m, env = bind_names (bind_names g [''optimizer'']) [''e''],
             log_file = [], saved = None \<rparr> :: 'r state"
  have w: "build_model USE_CUDA NUM_CUDA m = DataParallel m"
    by (rule build_model_wrapped [OF assms(1)])
  have ms: "model s = DataParallel params"
    using assms(2) by (simp add: w)
  have a: "periodic_evaluation lib e i s = Inl ?err"
    by (rule periodic_evaluation_wrapped [OF ms])
  have c: "run_batches lib e i (batch # rest) s = Inl ?err"
    using run_batches_wrapped [OF ms assms(3), of lib e batch rest] assms(4) by (simp add: ms)
  have epochs: "[0..<EPOCHS] = [0, Suc 0]"
    by (simp add: EPOCHS_def upt_rec)
  have t: "train lib g (DataParallel m) =
             (case run_batches lib 0 0 (dataloader lib 0) ?s of
                Inl err \<Rightarrow> Inl err
              | Inr s \<Rightarrow>
                  (case call_input_embeddings (model s) of
                     Inl err \<Rightarrow> Inl err
                   | Inr embedding_weights \<Rightarrow>
                       run_epochs lib [Suc 0]
                         (s\<lparr> env := (env s)(''embedding_weights'' \<mapsto> Weights embedding_weights),
                             saved := Some embedding_weights \<rparr>)))"
    by (simp add: train_def epochs)
  have b: "train lib g (DataParallel m) = Inl ?err
           \<or> (\<exists>batch rest err. dataloader lib 0 = batch # rest
                 \<and> step lib (DataParallel m) batch = Inl err
                 \<and> train lib g (DataParallel m) = Inl err)"
  proof (cases "dataloader lib 0")
    case Nil
    then show ?thesis by (simp add: t)
  next
    case (Cons batch rest)
    have r: "run_batches lib 0 0 (batch # rest) ?s =
               (case step lib (DataParallel m) batch of
                  Inl err \<Rightarrow> Inl err | Inr r \<Rightarrow> Inl ?err)"
      by (rule run_batches_wrapped) simp_all
    show ?thesis
    proof (cases "step lib (DataParallel m) batch")
      case (Inl err)
      then show ?thesis using Cons r by (simp add: t)
    next
      case (Inr x)
      then show ?thesis using Cons r by (simp add: t)
    qed
  qed
  from a c b show ?thesis
    by (simp only: w)
qed

theorem data_parallel_halts_training_witness:
  "(1::nat) < 2
   \<and> model \<lparr> model = build_model True 2 small_model, env = small_globals, log_file = [],
             saved = None \<rparr>
       = with_parameters (build_model True 2 small_model) small_model
   \<and> (4000::nat) mod 2000 = 0
   \<and> step small_library (build_model True 2 small_model) 7 = Inr (small_model, 0)
   \<and> periodic_evaluation small_library 0 4000
        \<lparr> model = build_model True 2 small_model, env = small_globals, log_file = [],
          saved = None \<rparr>
        = Inl (AttributeError ''DataParallel'' ''input_embeddings'')
   \<and> run_batches small_library 0 4000 [7, 8]
        \<lparr> model = build_model True 2 small_model, env = small_globals, log_file = [],
          saved = None \<rparr>
        = Inl (AttributeError ''DataParallel'' ''input_embeddings'')
   \<and> train small_library small_globals (build_model True 2 small_model)
        = Inl (AttributeError ''DataParallel'' ''input_embeddings'')"
proof -
  let ?s = "\<lparr> model = build_model True 2 small_model, env = small_globals,
              log_file = [] :: (real list \<times> real list) log_line list, saved = None \<rparr>"
  have h: "(1::nat) < 2" "model ?s = with_parameters (build_model True 2 small_model) small_model"
    "(4000::nat) mod 2000 = 0" "step small_library (model ?s) 7 = Inr (small_model, 0)"
    by (simp_all add: small_library_def idle_step_def build_model_def)
  have "step small_library (build_model True 2 small_model) 0 \<noteq> Inl err" for err
    by (simp add: small_library_def idle_step_def)
  moreover have "dataloader small_library 0 = [0, 1]"
    by (simp add: small_library_def)
  ultimately show ?thesis
    using h data_parallel_halts_training [OF h, where e = 0 and rest = "[8]" and g = small_globals]
    by simp
qed

text \<open>
  On one device the same loop reaches \<open>evaluate\<close>, and the first evaluation ends with
  the \<open>NameError\<close> of claim C10.
\<close>

lemma single_device_training_raises_name_error:
  "train small_library small_globals (build_model True 1 small_model)
     = Inl (NameError ''word_to_idx'')"
  by (simp add: train_def EPOCHS_def upt_rec small_library_def idle_step_def build_model_def
      periodic_evaluation_def and_then_def input_embeddings_def evaluate_def one_row_def
      endswith_def global_def small_globals_def)

end
